theory Spec2Isabelle
  imports Complex_Main "HOL-Library.Word" "HOL-Library.Sublist" "HOL-Library.Log_Nat"
begin

section \<open>C library primitives used by the firmware\<close>

text \<open>
  The firmware (\<^verbatim>\<open>src/src/main.cpp\<close>) parses its telemetry lines with \<^verbatim>\<open>strstr\<close>,
  \<^verbatim>\<open>atof\<close>, \<^verbatim>\<open>atoi\<close> and \<^verbatim>\<open>sscanf\<close>. They are modelled here on C strings
  (character lists without the terminating NUL), following ISO C.
\<close>

subsection \<open>Character classes\<close>

definition isspace :: "char \<Rightarrow> bool" where
  "isspace c = (c = CHR '' '' \<or> ((9::int) \<le> of_char c \<and> of_char c \<le> (13::int)))"

definition isdigit :: "char \<Rightarrow> bool" where
  "isdigit c = ((48::int) \<le> of_char c \<and> of_char c \<le> (57::int))"

definition isupper :: "char \<Rightarrow> bool" where
  "isupper c = ((65::int) \<le> of_char c \<and> of_char c \<le> (90::int))"

definition tolower :: "char \<Rightarrow> char" where
  "tolower c = (if isupper c then char_of (of_char c + (32::int)) else c)"

definition isxdigit :: "char \<Rightarrow> bool" where
  "isxdigit c = (isdigit c \<or> ((97::int) \<le> of_char (tolower c) \<and> of_char (tolower c) \<le> (102::int)))"

definition isalnum_us :: "char \<Rightarrow> bool" where
  \<comment> \<open>the characters of an n-char-sequence: digits, letters and the underscore\<close>
  "isalnum_us c = (isdigit c \<or> c = CHR ''_'' \<or>
     ((97::int) \<le> of_char (tolower c) \<and> of_char (tolower c) \<le> (122::int)))"

definition digit_of :: "char \<Rightarrow> int" where
  "digit_of c = of_char c - 48"

definition xdigit_of :: "char \<Rightarrow> int" where
  "xdigit_of c = (if isdigit c then digit_of c else of_char (tolower c) - 87)"

definition dec_value :: "string \<Rightarrow> int" where
  "dec_value ds = foldl (\<lambda>n c. 10 * n + digit_of c) 0 ds"

definition hex_value :: "string \<Rightarrow> int" where
  "hex_value ds = foldl (\<lambda>n c. 16 * n + xdigit_of c) 0 ds"

subsection \<open>\<^verbatim>\<open>strstr\<close>\<close>

text \<open>
  \<^verbatim>\<open>strstr(haystack, needle)\<close> returns a pointer to the first occurrence of the needle, or
  NULL. The pointer is modelled by the suffix of the haystack that starts there.
\<close>

fun strstr :: "string \<Rightarrow> string \<Rightarrow> string option" where
  "strstr [] needle = (if needle = [] then Some [] else None)"
| "strstr (c # cs) needle =
     (if prefix needle (c # cs) then Some (c # cs) else strstr cs needle)"

subsection \<open>Floating-point values and \<^verbatim>\<open>strtod\<close>\<close>

text \<open>
  A \<^verbatim>\<open>double\<close> or \<^verbatim>\<open>float\<close> value is a finite number, a negative zero, an infinity
  or a NaN. A finite value is the rational number it is exactly equal to. A conversion
  from text gives the nearest \<^verbatim>\<open>double\<close> (binary64); storing it into a \<^verbatim>\<open>float\<close> field
  narrows it to the nearest binary32 value. Both round to nearest, ties to even, go to an
  infinity on overflow and to a (signed) zero or a subnormal number on underflow.
  Comparisons follow IEEE 754: the two zeros are equal and every ordered comparison with
  a NaN is false.
\<close>

datatype cfloat = Flt rat | NegZero | PInf | NInf | NaN

fun fneg :: "cfloat \<Rightarrow> cfloat" where
  "fneg (Flt a) = (if a = 0 then NegZero else Flt (- a))"
| "fneg NegZero = Flt 0"
| "fneg PInf = NInf"
| "fneg NInf = PInf"
| "fneg NaN = NaN"

fun flt_less :: "cfloat \<Rightarrow> cfloat \<Rightarrow> bool" where
  "flt_less NaN b = False"
| "flt_less a NaN = False"
| "flt_less PInf b = False"
| "flt_less a NInf = False"
| "flt_less NInf b = True"
| "flt_less a PInf = True"
| "flt_less NegZero NegZero = False"
| "flt_less NegZero (Flt b) = (0 < b)"
| "flt_less (Flt a) NegZero = (a < 0)"
| "flt_less (Flt a) (Flt b) = (a < b)"

definition scale_pow :: "rat \<Rightarrow> rat \<Rightarrow> int \<Rightarrow> rat" where
  "scale_pow b m e = (if 0 \<le> e then m * b ^ nat e else m / b ^ nat (- e))"

definition ilog2 :: "rat \<Rightarrow> int" where
  \<comment> \<open>for a positive number, the exponent \<open>e\<close> with \<open>2\<^sup>e \<le> a < 2\<^sup>e\<^sup>+\<^sup>1\<close>\<close>
  "ilog2 a = (if 1 \<le> a then bitlen \<lfloor>a\<rfloor> - 1 else - bitlen (\<lceil>1 / a\<rceil> - 1))"

definition nearest_even :: "int \<Rightarrow> rat \<Rightarrow> int" where
  \<comment> \<open>\<open>n\<close> or \<open>n + 1\<close>, for a number that exceeds \<open>n\<close> by the fraction \<open>r\<close>\<close>
  "nearest_even n r =
     (if r < 1 / 2 then n
      else if 1 / 2 < r then n + 1
      else if even n then n else n + 1)"

definition round_even :: "rat \<Rightarrow> int" where
  \<comment> \<open>the nearest integer, the even one of the two when they are equally near\<close>
  "round_even t = nearest_even \<lfloor>t\<rfloor> (t - of_int \<lfloor>t\<rfloor>)"

definition fp_result :: "nat \<Rightarrow> int \<Rightarrow> bool \<Rightarrow> int \<Rightarrow> rat \<Rightarrow> int \<Rightarrow> cfloat" where
  \<comment> \<open>the value with significand \<open>k\<close> and spacing \<open>q\<close> at exponent \<open>e\<close>: an infinity beyond
      the largest finite number, a signed zero when the significand is zero\<close>
  "fp_result p emax neg e q k =
     (if emax < e \<or> (e = emax \<and> k = 2 ^ p) then (if neg then NInf else PInf)
      else if k = 0 then (if neg then NegZero else Flt 0)
      else Flt ((if neg then - 1 else 1) * of_int k * q))"

definition fp_spaced :: "nat \<Rightarrow> int \<Rightarrow> bool \<Rightarrow> rat \<Rightarrow> int \<Rightarrow> rat \<Rightarrow> cfloat" where
  \<comment> \<open>the magnitude \<open>a\<close> is rounded to a multiple of the spacing \<open>q\<close>, ties to even\<close>
  "fp_spaced p emax neg a e q = fp_result p emax neg e q (round_even (a / q))"

definition round_fp :: "nat \<Rightarrow> int \<Rightarrow> int \<Rightarrow> rat \<Rightarrow> cfloat" where
  \<comment> \<open>the nearest number with \<open>p\<close> significant bits and an exponent between \<open>emin\<close> and
      \<open>emax\<close>; numbers of exponent \<open>e\<close> are spaced by \<open>2\<^sup>e\<^sup>-\<^sup>p\<^sup>+\<^sup>1\<close>, and below \<open>emin\<close> by
      the spacing of \<open>emin\<close> (subnormal numbers)\<close>
  "round_fp p emin emax x =
     (if x = 0 then Flt 0
      else fp_spaced p emax (x < 0) \<bar>x\<bar> (max (ilog2 \<bar>x\<bar>) emin)
             (scale_pow 2 1 (max (ilog2 \<bar>x\<bar>) emin - int p + 1)))"

definition to_double :: "rat \<Rightarrow> cfloat" where
  "to_double x = round_fp 53 (- 1022) 1023 x"

fun float_of_double :: "cfloat \<Rightarrow> cfloat" where
  \<comment> \<open>the conversion of a \<^verbatim>\<open>double\<close> to \<^verbatim>\<open>float\<close>, as on assignment to a \<^verbatim>\<open>float\<close> field\<close>
  "float_of_double (Flt a) = round_fp 24 (- 126) 127 a"
| "float_of_double v = v"

definition sign_part :: "string \<Rightarrow> bool \<times> string" where
  \<comment> \<open>an optional sign: whether it is a minus, and the text after it\<close>
  "sign_part s =
     (case s of
        [] \<Rightarrow> (False, s)
      | c # r \<Rightarrow> if c = CHR ''-'' then (True, r)
                 else if c = CHR ''+'' then (False, r)
                 else (False, s))"

definition exponent_part :: "char \<Rightarrow> string \<Rightarrow> int \<times> string" where
  \<comment> \<open>an optional exponent, introduced by the given letter; without digits nothing is consumed\<close>
  "exponent_part mark s =
     (case s of
        [] \<Rightarrow> (0, s)
      | c # r \<Rightarrow>
          if tolower c \<noteq> mark then (0, s)
          else (let (neg, r') = sign_part r;
                    ds = takeWhile isdigit r'
                in if ds = [] then (0, s)
                   else (if neg then - dec_value ds else dec_value ds,
                         dropWhile isdigit r')))"

definition mantissa_part ::
  "(char \<Rightarrow> bool) \<Rightarrow> string \<Rightarrow> string \<times> string \<times> string" where
  \<comment> \<open>integer digits, fraction digits and the rest; a point is consumed when it follows\<close>
  "mantissa_part isd s =
     (let ip = takeWhile isd s;
          r1 = dropWhile isd s
      in case r1 of
           [] \<Rightarrow> (ip, [], r1)
         | c # r \<Rightarrow> if c = CHR ''.'' then (ip, takeWhile isd r, dropWhile isd r)
                    else (ip, [], r1))"

definition strtod_decimal :: "string \<Rightarrow> (cfloat \<times> string) option" where
  "strtod_decimal s =
     (let (ip, fp, r2) = mantissa_part isdigit s
      in if ip = [] \<and> fp = [] then None
         else (let m = of_int (dec_value (ip @ fp)) / 10 ^ length fp;
                   (e, r3) = exponent_part (CHR ''e'') r2
               in Some (to_double (scale_pow 10 m e), r3)))"

definition strtod_hex :: "string \<Rightarrow> (cfloat \<times> string) option" where
  "strtod_hex s =
     (case s of
        z # x # r \<Rightarrow>
          if z = CHR ''0'' \<and> tolower x = CHR ''x'' then
            (let (ip, fp, r2) = mantissa_part isxdigit r
             in if ip = [] \<and> fp = [] then None
                else (let m = of_int (hex_value (ip @ fp)) / 16 ^ length fp;
                          (e, r3) = exponent_part (CHR ''p'') r2
                      in Some (to_double (scale_pow 2 m e), r3)))
          else None
      | _ \<Rightarrow> None)"

definition nan_tail :: "string \<Rightarrow> string" where
  \<comment> \<open>the optional \<^verbatim>\<open>(n-char-sequence)\<close> after \<^verbatim>\<open>nan\<close>\<close>
  "nan_tail s =
     (case s of
        [] \<Rightarrow> s
      | c # r \<Rightarrow>
          if c = CHR ''('' then
            (case dropWhile isalnum_us r of
               [] \<Rightarrow> s
             | d # r' \<Rightarrow> if d = CHR '')'' then r' else s)
          else s)"

definition strtod_special :: "string \<Rightarrow> (cfloat \<times> string) option" where
  "strtod_special s =
     (let l = map tolower s
      in if prefix ''infinity'' l then Some (PInf, drop 8 s)
         else if prefix ''inf'' l then Some (PInf, drop 3 s)
         else if prefix ''nan'' l then Some (NaN, nan_tail (drop 3 s))
         else None)"

definition strtod :: "string \<Rightarrow> (cfloat \<times> string) option" where
  \<comment> \<open>\<open>None\<close>: no conversion could be performed; otherwise the value and the unparsed rest\<close>
  "strtod s =
     (let (neg, s2) = sign_part (dropWhile isspace s);
          r = (case strtod_special s2 of
                 Some p \<Rightarrow> Some p
               | None \<Rightarrow> (case strtod_hex s2 of
                            Some p \<Rightarrow> Some p
                          | None \<Rightarrow> strtod_decimal s2))
      in case r of
           None \<Rightarrow> None
         | Some (v, rest) \<Rightarrow> Some (if neg then fneg v else v, rest))"

definition atof :: "string \<Rightarrow> cfloat" where
  \<comment> \<open>\<^verbatim>\<open>atof(s)\<close> is \<^verbatim>\<open>strtod(s, NULL)\<close>: zero when no conversion can be performed\<close>
  "atof s = (case strtod s of None \<Rightarrow> Flt 0 | Some (v, rest) \<Rightarrow> v)"

subsection \<open>\<^verbatim>\<open>atoi\<close> and \<^verbatim>\<open>sscanf\<close>\<close>

definition strtol_digits :: "string \<Rightarrow> bool \<times> string" where
  \<comment> \<open>the sign and the digit sequence that \<^verbatim>\<open>atoi\<close> converts\<close>
  "strtol_digits s =
     (let (neg, s2) = sign_part (dropWhile isspace s) in (neg, takeWhile isdigit s2))"

definition atoi :: "string \<Rightarrow> int" where
  \<comment> \<open>\<^verbatim>\<open>(int) strtol(s, NULL, 10)\<close> with a 32-bit \<^verbatim>\<open>long\<close>: zero without digits, clamped on overflow\<close>
  "atoi s =
     (let (neg, ds) = strtol_digits s;
          n = dec_value ds
      in if neg then max (- n) (- 2147483648) else min n 2147483647)"

definition sscanf_ff :: "char \<Rightarrow> string \<Rightarrow> cfloat \<times> cfloat \<Rightarrow> cfloat \<times> cfloat" where
  \<comment> \<open>\<^verbatim>\<open>sscanf(s, "%f<sep>%f", &a, &b)\<close>: each \<^verbatim>\<open>%f\<close> accepts what \<^verbatim>\<open>strtod\<close> accepts and
      stores the value as a \<^verbatim>\<open>float\<close>, a target is assigned only when its conversion
      succeeds, and scanning stops at the first failure\<close>
  "sscanf_ff sep s ab =
     (case strtod s of
        None \<Rightarrow> ab
      | Some (v1, r1) \<Rightarrow>
          (case r1 of
             [] \<Rightarrow> (float_of_double v1, snd ab)
           | c # r2 \<Rightarrow>
               if c = sep then
                 (case strtod r2 of
                    None \<Rightarrow> (float_of_double v1, snd ab)
                  | Some (v2, r3) \<Rightarrow> (float_of_double v1, float_of_double v2))
               else (float_of_double v1, snd ab)))"

section \<open>The firmware state\<close>

text \<open>
  \<^verbatim>\<open>struct SystemMetrics\<close> with its initial value, the serial line buffer with its
  index, and the static \<^verbatim>\<open>lastUpdate\<close> of \<^verbatim>\<open>updateDisplay\<close>. \<^verbatim>\<open>unsigned long\<close> is
  32 bits wide on the ESP32-C6, so the timestamps are 32-bit words and their differences
  wrap around.
\<close>

record SystemMetrics =
  cpu_usage :: cfloat
  ram_usage :: cfloat
  temperature :: cfloat
  cpu_freq_ghz :: cfloat
  gpu_usage :: cfloat
  ram_used_gb :: cfloat
  ram_total_gb :: cfloat
  fan_rpm :: int
  net_download_mbps :: cfloat
  net_upload_mbps :: cfloat
  battery_percent :: int
  power_watts :: cfloat
  last_update :: "32 word"
  connected :: bool
  power_save_mode :: bool
  disconnect_time :: "32 word"

text \<open>
  What the firmware does to the outside is recorded in a trace: the lines printed on the
  serial console, the requests to the backlight, the CPU clock and the display, and the
  end-of-iteration calls. The trace also records each call of \<^verbatim>\<open>parseMessage\<close> with the
  line it is given.
\<close>

datatype event =
    Println string
  | Call_parseMessage string
  | Set_Backlight nat
  | SetCpuFrequencyMhz nat
  | Ui_update_cpu cfloat cfloat
  | Ui_update_gpu cfloat
  | Ui_update_ram cfloat cfloat cfloat
  | Ui_update_temp cfloat int
  | Ui_update_network cfloat cfloat
  | Ui_update_battery int cfloat
  | Timer_Loop
  | Delay nat

record firmware =
  metrics :: SystemMetrics
  serialBuffer :: "char list"
  bufferIndex :: nat
  lastUpdate :: "32 word"
  trace :: "event list"

definition SERIAL_BUFFER_SIZE :: nat where
  "SERIAL_BUFFER_SIZE = 128"

definition DATA_TIMEOUT_MS :: "32 word" where
  "DATA_TIMEOUT_MS = 5000"

definition POWER_SAVE_BACKLIGHT :: nat where
  "POWER_SAVE_BACKLIGHT = 0"

definition NORMAL_BACKLIGHT :: nat where
  "NORMAL_BACKLIGHT = 5"

definition POWER_SAVE_DELAY_MS :: "32 word" where
  "POWER_SAVE_DELAY_MS = 10000"

definition ENABLE_CPU_FREQ_SCALING :: bool where
  "ENABLE_CPU_FREQ_SCALING = True"

definition metrics_init :: SystemMetrics where
  "metrics_init =
     \<lparr> cpu_usage = Flt 0, ram_usage = Flt 0, temperature = Flt 0,
       cpu_freq_ghz = Flt 0, gpu_usage = Flt 0,
       ram_used_gb = Flt 0, ram_total_gb = Flt 0,
       fan_rpm = 0, net_download_mbps = Flt 0, net_upload_mbps = Flt 0,
       battery_percent = - 1, power_watts = Flt 0,
       last_update = 0, connected = False,
       power_save_mode = False, disconnect_time = 0 \<rparr>"

definition firmware_init :: firmware where
  "firmware_init =
     \<lparr> metrics = metrics_init,
       serialBuffer = replicate SERIAL_BUFFER_SIZE (CHR 0x00),
       bufferIndex = 0, lastUpdate = 0, trace = [] \<rparr>"

definition println :: "string \<Rightarrow> firmware \<Rightarrow> firmware" where
  "println msg s = s\<lparr>trace := trace s @ [Println msg]\<rparr>"

definition emit :: "event \<Rightarrow> firmware \<Rightarrow> firmware" where
  "emit e s = s\<lparr>trace := trace s @ [e]\<rparr>"

section \<open>The protocol decoder\<close>

definition validateChecksum :: "string \<Rightarrow> bool" where
  "validateChecksum message =
     (case strstr message '',CHK:'' of
        None \<Rightarrow> False
      | Some chk_pos \<Rightarrow> (let received_checksum = atoi (drop 5 chk_pos) in True))"

definition reset_optional :: "SystemMetrics \<Rightarrow> SystemMetrics" where
  \<comment> \<open>lines 153 to 162 of \<^verbatim>\<open>parseMessage\<close>\<close>
  "reset_optional m =
     m\<lparr>cpu_freq_ghz := Flt 0, gpu_usage := Flt 0,
       ram_used_gb := Flt 0, ram_total_gb := Flt 0,
       fan_rpm := 0,
       net_download_mbps := Flt 0, net_upload_mbps := Flt 0,
       battery_percent := - 1, power_watts := Flt 0\<rparr>"

definition opt_freq :: "string \<Rightarrow> SystemMetrics \<Rightarrow> SystemMetrics" where
  \<comment> \<open>lines 197 to 200\<close>
  "opt_freq message m =
     (case strstr message ''FREQ:'' of
        None \<Rightarrow> m
      | Some pos \<Rightarrow> m\<lparr>cpu_freq_ghz := float_of_double (atof (drop 5 pos))\<rparr>)"

definition opt_gpu :: "string \<Rightarrow> SystemMetrics \<Rightarrow> SystemMetrics" where
  \<comment> \<open>lines 203 to 206\<close>
  "opt_gpu message m =
     (case strstr message ''GPU:'' of
        None \<Rightarrow> m
      | Some pos \<Rightarrow> m\<lparr>gpu_usage := float_of_double (atof (drop 4 pos))\<rparr>)"

definition opt_ramgb :: "string \<Rightarrow> SystemMetrics \<Rightarrow> SystemMetrics" where
  \<comment> \<open>lines 209 to 212\<close>
  "opt_ramgb message m =
     (case strstr message ''RAMGB:'' of
        None \<Rightarrow> m
      | Some pos \<Rightarrow>
          (let (u, t) = sscanf_ff (CHR ''/'') (drop 6 pos) (ram_used_gb m, ram_total_gb m)
           in m\<lparr>ram_used_gb := u, ram_total_gb := t\<rparr>))"

definition opt_fan :: "string \<Rightarrow> SystemMetrics \<Rightarrow> SystemMetrics" where
  \<comment> \<open>lines 215 to 218\<close>
  "opt_fan message m =
     (case strstr message ''FAN:'' of
        None \<Rightarrow> m
      | Some pos \<Rightarrow> m\<lparr>fan_rpm := atoi (drop 4 pos)\<rparr>)"

definition opt_net :: "string \<Rightarrow> SystemMetrics \<Rightarrow> SystemMetrics" where
  \<comment> \<open>lines 221 to 224\<close>
  "opt_net message m =
     (case strstr message ''NET:'' of
        None \<Rightarrow> m
      | Some pos \<Rightarrow>
          (let (d, u) = sscanf_ff (CHR '','') (drop 4 pos)
                          (net_download_mbps m, net_upload_mbps m)
           in m\<lparr>net_download_mbps := d, net_upload_mbps := u\<rparr>))"

definition opt_bat :: "string \<Rightarrow> SystemMetrics \<Rightarrow> SystemMetrics" where
  \<comment> \<open>lines 227 to 230\<close>
  "opt_bat message m =
     (case strstr message ''BAT:'' of
        None \<Rightarrow> m
      | Some pos \<Rightarrow> m\<lparr>battery_percent := atoi (drop 4 pos)\<rparr>)"

definition opt_power :: "string \<Rightarrow> SystemMetrics \<Rightarrow> SystemMetrics" where
  \<comment> \<open>lines 233 to 236\<close>
  "opt_power message m =
     (case strstr message ''POWER:'' of
        None \<Rightarrow> m
      | Some pos \<Rightarrow> m\<lparr>power_watts := float_of_double (atof (drop 6 pos))\<rparr>)"

definition parse_optional :: "string \<Rightarrow> SystemMetrics \<Rightarrow> SystemMetrics" where
  \<comment> \<open>lines 194 to 236 of \<^verbatim>\<open>parseMessage\<close>: the optional keys, in the order of the source\<close>
  "parse_optional message m3 =
     (let m4 = opt_freq message m3;
          m5 = opt_gpu message m4;
          m6 = opt_ramgb message m5;
          m7 = opt_fan message m6;
          m8 = opt_net message m7;
          m9 = opt_bat message m8
      in opt_power message m9)"

definition out_of_range :: "SystemMetrics \<Rightarrow> bool" where
  \<comment> \<open>the condition of lines 239 to 241\<close>
  "out_of_range m =
     (flt_less (cpu_usage m) (Flt 0) \<or> flt_less (Flt 100) (cpu_usage m) \<or>
      flt_less (ram_usage m) (Flt 0) \<or> flt_less (Flt 100) (ram_usage m) \<or>
      flt_less (temperature m) (Flt 0) \<or> flt_less (Flt 150) (temperature m))"

definition in_range :: "cfloat \<Rightarrow> rat \<Rightarrow> bool" where
  \<comment> \<open>a finite value between 0 and the given upper bound, both included (a negative zero
      is zero)\<close>
  "in_range v hi =
     (case v of Flt a \<Rightarrow> 0 \<le> a \<and> a \<le> hi | NegZero \<Rightarrow> 0 \<le> hi | _ \<Rightarrow> False)"

definition parseMessage :: "string \<Rightarrow> firmware \<Rightarrow> bool \<times> firmware" where
  "parseMessage message s =
     (if \<not> validateChecksum message then
        (False, println ''Error: Invalid checksum'' s)
      else
        (let m0 = reset_optional (metrics s)
         in case strstr message ''CPU:'' of
              None \<Rightarrow> (False, println ''Error: CPU field missing'' (s\<lparr>metrics := m0\<rparr>))
            | Some pos1 \<Rightarrow>
        (let m1 = m0\<lparr>cpu_usage := float_of_double (atof (drop 4 pos1))\<rparr>
         in case strstr message ''RAM:'' of
              None \<Rightarrow> (False, println ''Error: RAM field missing'' (s\<lparr>metrics := m1\<rparr>))
            | Some pos2 \<Rightarrow>
        (let m2 = m1\<lparr>ram_usage := float_of_double (atof (drop 4 pos2))\<rparr>
         in case strstr message ''TEMP:'' of
              None \<Rightarrow> (False, println ''Error: TEMP field missing'' (s\<lparr>metrics := m2\<rparr>))
            | Some pos3 \<Rightarrow>
        (let m3 = m2\<lparr>temperature := float_of_double (atof (drop 5 pos3))\<rparr>;
             m10 = parse_optional message m3
         in if out_of_range m10 then
              (False, println ''Error: Values out of range'' (s\<lparr>metrics := m10\<rparr>))
            else (True, s\<lparr>metrics := m10\<rparr>))))))"

section \<open>The transport reader\<close>

definition c_str :: "char list \<Rightarrow> string" where
  \<comment> \<open>the C string that starts at the beginning of a character array\<close>
  "c_str buf = takeWhile (\<lambda>c. c \<noteq> CHR 0x00) buf"

definition is_terminator :: "char \<Rightarrow> bool" where
  "is_terminator c = (c = CHR 0x0A \<or> c = CHR 0x0D)"

definition deliver :: "32 word \<Rightarrow> string \<Rightarrow> firmware \<Rightarrow> firmware" where
  \<comment> \<open>lines 120 to 129: the line is given to the decoder; on success the link is stamped
      and marked connected\<close>
  "deliver now message s =
     (let (ok, s2) = parseMessage message (emit (Call_parseMessage message) s)
      in if ok then
           (let s2a = s2\<lparr>metrics := (metrics s2)\<lparr>last_update := now\<rparr>\<rparr>;
                s2b = (if \<not> connected (metrics s2a)
                       then println ''Connection restored'' s2a else s2a)
            in s2b\<lparr>metrics := (metrics s2b)\<lparr>connected := True\<rparr>\<rparr>)
         else s2)"

definition serial_byte :: "32 word \<Rightarrow> char \<Rightarrow> firmware \<Rightarrow> firmware" where
  \<comment> \<open>the body of the loop of \<^verbatim>\<open>processSerialData\<close> for the byte \<open>c\<close>; \<open>now\<close> is what
      \<^verbatim>\<open>millis()\<close> returns while this byte is handled\<close>
  "serial_byte now c s =
     (if is_terminator c then
        (if bufferIndex s > 0 then
           (let s1 = s\<lparr>serialBuffer := (serialBuffer s)[bufferIndex s := CHR 0x00]\<rparr>;
                s3 = deliver now (c_str (serialBuffer s1)) s1
            in s3\<lparr>bufferIndex := 0\<rparr>)
         else s)
      else if bufferIndex s < SERIAL_BUFFER_SIZE - 1 then
        s\<lparr>serialBuffer := (serialBuffer s)[bufferIndex s := c],
          bufferIndex := bufferIndex s + 1\<rparr>
      else println ''Error: Buffer overflow'' (s\<lparr>bufferIndex := 0\<rparr>))"

fun processSerialData :: "(32 word \<times> char) list \<Rightarrow> firmware \<Rightarrow> firmware" where
  "processSerialData [] s = s"
| "processSerialData ((now, c) # input) s = processSerialData input (serial_byte now c s)"

section \<open>Liveness monitor, power manager and render scheduler\<close>

definition checkConnectionStatus :: "32 word \<Rightarrow> 32 word \<Rightarrow> firmware \<Rightarrow> firmware" where
  \<comment> \<open>\<open>now1\<close> and \<open>now2\<close> are the two readings of \<^verbatim>\<open>millis()\<close>, in lines 271 and 274\<close>
  "checkConnectionStatus now1 now2 s =
     (if connected (metrics s) then
        (let timeSinceUpdate = now1 - last_update (metrics s)
         in if timeSinceUpdate > DATA_TIMEOUT_MS then
              println ''Connection lost - no data received''
                (s\<lparr>metrics := (metrics s)\<lparr>connected := False, disconnect_time := now2\<rparr>\<rparr>)
            else s)
      else s)"

definition enterPowerSaveMode :: "firmware \<Rightarrow> firmware" where
  "enterPowerSaveMode s =
     (if power_save_mode (metrics s) then s
      else
        (let s1 = println ''Entering power save mode...'' s;
             s2 = s1\<lparr>metrics := (metrics s1)\<lparr>power_save_mode := True\<rparr>\<rparr>;
             s3 = emit (Set_Backlight POWER_SAVE_BACKLIGHT) s2;
             s4 = (if ENABLE_CPU_FREQ_SCALING
                   then println ''CPU frequency reduced to 80MHz'' (emit (SetCpuFrequencyMhz 80) s3)
                   else s3)
         in println ''Power save mode active'' s4))"

definition exitPowerSaveMode :: "firmware \<Rightarrow> firmware" where
  "exitPowerSaveMode s =
     (if \<not> power_save_mode (metrics s) then s
      else
        (let s1 = println ''Exiting power save mode...'' s;
             s2 = s1\<lparr>metrics := (metrics s1)\<lparr>power_save_mode := False\<rparr>\<rparr>;
             s3 = emit (Set_Backlight NORMAL_BACKLIGHT) s2;
             s4 = (if ENABLE_CPU_FREQ_SCALING
                   then println ''CPU frequency restored to 160MHz'' (emit (SetCpuFrequencyMhz 160) s3)
                   else s3)
         in println ''Power save mode disabled'' s4))"

definition managePowerSaving :: "32 word \<Rightarrow> firmware \<Rightarrow> firmware" where
  "managePowerSaving now s =
     (if \<not> connected (metrics s) then
        (let timeSinceDisconnect = now - disconnect_time (metrics s)
         in if timeSinceDisconnect > POWER_SAVE_DELAY_MS \<and> \<not> power_save_mode (metrics s)
            then enterPowerSaveMode s else s)
      else
        (if power_save_mode (metrics s) then exitPowerSaveMode s else s))"

definition updateDisplay :: "32 word \<Rightarrow> firmware \<Rightarrow> firmware" where
  "updateDisplay now s =
     (if now - lastUpdate s < 500 then s
      else
        (let m = metrics s
         in s\<lparr>lastUpdate := now,
              trace := trace s @
                [Ui_update_cpu (cpu_usage m) (cpu_freq_ghz m),
                 Ui_update_gpu (gpu_usage m),
                 Ui_update_ram (ram_usage m) (ram_used_gb m) (ram_total_gb m),
                 Ui_update_temp (temperature m) (fan_rpm m),
                 Ui_update_network (net_download_mbps m) (net_upload_mbps m),
                 Ui_update_battery (battery_percent m) (power_watts m)]\<rparr>))"

record clock_reads =
  t_check :: "32 word"
  t_disc :: "32 word"
  t_power :: "32 word"
  t_display :: "32 word"

definition loop :: "(32 word \<times> char) list \<Rightarrow> clock_reads \<Rightarrow> firmware \<Rightarrow> firmware" where
  \<comment> \<open>one iteration of \<^verbatim>\<open>loop()\<close>: the bytes available on the serial link, each with the
      clock reading while it is handled, and the clock readings of the later calls\<close>
  "loop input clk s =
     (let s1 = processSerialData input s;
          s2 = checkConnectionStatus (t_check clk) (t_disc clk) s1;
          s3 = managePowerSaving (t_power clk) s2;
          s4 = updateDisplay (t_display clk) s3;
          s5 = emit Timer_Loop s4
      in emit (Delay (if power_save_mode (metrics s5) then 100 else 5)) s5)"

section \<open>Notions used in the statements\<close>

fun is_ui_update :: "event \<Rightarrow> bool" where
  "is_ui_update (Ui_update_cpu a b) = True"
| "is_ui_update (Ui_update_gpu a) = True"
| "is_ui_update (Ui_update_ram a b c) = True"
| "is_ui_update (Ui_update_temp a n) = True"
| "is_ui_update (Ui_update_network a b) = True"
| "is_ui_update (Ui_update_battery n a) = True"
| "is_ui_update e = False"

definition connection_lost :: event where
  "connection_lost = Println ''Connection lost - no data received''"

fun idle_loops :: "clock_reads list \<Rightarrow> firmware \<Rightarrow> firmware" where
  \<comment> \<open>successive iterations of \<^verbatim>\<open>loop()\<close> during which no byte arrives\<close>
  "idle_loops [] s = s"
| "idle_loops (clk # clks) s = idle_loops clks (loop [] clk s)"

definition buffer_ok :: "firmware \<Rightarrow> bool" where
  \<comment> \<open>the buffer is the array of the source and the index is inside it\<close>
  "buffer_ok s =
     (length (serialBuffer s) = SERIAL_BUFFER_SIZE \<and> bufferIndex s < SERIAL_BUFFER_SIZE)"

definition same_view :: "firmware \<Rightarrow> firmware \<Rightarrow> bool" where
  \<comment> \<open>two states that differ at most in the bytes of the buffer at and after the index,
      which the firmware overwrites before it reads them\<close>
  "same_view s s' =
     (metrics s = metrics s' \<and> trace s = trace s' \<and> lastUpdate s = lastUpdate s' \<and>
      bufferIndex s = bufferIndex s' \<and>
      take (bufferIndex s) (serialBuffer s) = take (bufferIndex s') (serialBuffer s'))"

definition starts_number :: "string \<Rightarrow> bool" where
  \<comment> \<open>the texts that \<^verbatim>\<open>strtod\<close> converts: after white space and an optional sign, a digit,
      a point followed by a digit, or \<^verbatim>\<open>inf\<close> or \<^verbatim>\<open>nan\<close> in any letter case\<close>
  "starts_number txt =
     (let s2 = snd (sign_part (dropWhile isspace txt))
      in (case s2 of
            [] \<Rightarrow> False
          | c # r \<Rightarrow> isdigit c \<or>
              (c = CHR ''.'' \<and> (case r of [] \<Rightarrow> False | d # r' \<Rightarrow> isdigit d)))
         \<or> prefix ''inf'' (map tolower s2) \<or> prefix ''nan'' (map tolower s2))"

definition starts_integer :: "string \<Rightarrow> bool" where
  \<comment> \<open>the texts in which \<^verbatim>\<open>atoi\<close> finds digits: after white space and an optional sign, a
      digit\<close>
  "starts_integer txt =
     (case snd (sign_part (dropWhile isspace txt)) of [] \<Rightarrow> False | c # r \<Rightarrow> isdigit c)"

definition timed_out :: "firmware \<Rightarrow> clock_reads \<Rightarrow> bool" where
  \<comment> \<open>the liveness check of an iteration with these clock readings finds the last update
      more than 5000 ms old\<close>
  "timed_out s clk = (5000 < t_check clk - last_update (metrics s))"

definition quiet_ext :: "firmware \<Rightarrow> firmware \<Rightarrow> bool" where
  \<comment> \<open>the second state extends the trace of the first without any request to the display\<close>
  "quiet_ext s s' = (\<exists>pre. trace s' = trace s @ pre \<and> (\<forall>e \<in> set pre. \<not> is_ui_update e))"

section \<open>Substring search\<close>

lemma strstr_None_iff: "strstr h n = None \<longleftrightarrow> \<not> sublist n h"
  by (induction h) (auto simp: sublist_Cons_right)

lemma validateChecksum_iff: "validateChecksum message \<longleftrightarrow> sublist '',CHK:'' message"
  using strstr_None_iff [of message "'',CHK:''"]
  by (auto simp: validateChecksum_def Let_def split: option.splits)

lemma sublist_comma_CHK: "sublist '',CHK:'' rest \<Longrightarrow> sublist ''CHK:'' rest"
proof -
  assume "sublist '',CHK:'' rest"
  then obtain ps ss where "rest = ps @ '',CHK:'' @ ss"
    unfolding sublist_def by blast
  then have "rest = (ps @ '','') @ ''CHK:'' @ ss" by simp
  then show ?thesis unfolding sublist_def by blast
qed

section \<open>The checksum check\<close>

lemma parseMessage_no_checksum:
  "\<not> validateChecksum message \<Longrightarrow>
   parseMessage message s = (False, println ''Error: Invalid checksum'' s)"
  by (simp add: parseMessage_def)

lemma parseMessage_checksum_cases:
  "validateChecksum message \<Longrightarrow>
   parseMessage message s \<noteq> (False, println ''Error: Invalid checksum'' s)"
  by (auto simp: parseMessage_def Let_def println_def split: option.splits
           dest!: arg_cong [where f = trace])

text \<open>
  Claim C3. The decoder rejects a line with the checksum error precisely when the
  checksum token \<^verbatim>\<open>,CHK:\<close> does not occur in the line; and when the token occurs,
  \<^verbatim>\<open>validateChecksum\<close> accepts the line whatever text follows the token: no expected
  checksum is computed or compared.
\<close>

theorem checksum_policy:
  "(parseMessage message s = (False, println ''Error: Invalid checksum'' s))
     = (\<not> sublist '',CHK:'' message)
   \<and> validateChecksum (pre @ '',CHK:'' @ checksum_text)"
proof -
  have "sublist '',CHK:'' (pre @ '',CHK:'' @ checksum_text)"
    by (rule sublist_appendI)
  then show ?thesis
    using parseMessage_no_checksum [of message s] parseMessage_checksum_cases [of message s]
    unfolding validateChecksum_iff by blast
qed

theorem checksum_policy_witness:
  "parseMessage ''CPU:45.2,RAM:67.8,TEMP:58.5'' firmware_init
     = (False, println ''Error: Invalid checksum'' firmware_init)
   \<and> validateChecksum (''CPU:45.2,RAM:67.8,TEMP:58.5'' @ '',CHK:'' @ ''999'')"
proof -
  have "\<not> sublist '',CHK:'' ''CPU:45.2,RAM:67.8,TEMP:58.5''"
    unfolding strstr_None_iff [symmetric] by code_simp
  then show ?thesis
    using checksum_policy [of "''CPU:45.2,RAM:67.8,TEMP:58.5''" firmware_init
                              "''CPU:45.2,RAM:67.8,TEMP:58.5''" "''999''"]
    by simp
qed

text \<open>
  Claim C9. The checksum token is searched as \<^verbatim>\<open>,CHK:\<close>, with the comma. A line that
  starts with \<^verbatim>\<open>CHK:\<close> and has no other occurrence of \<^verbatim>\<open>CHK:\<close> fails the check and is
  rejected with the checksum error. A line with \<^verbatim>\<open>,CHK:\<close> at any place, followed by
  anything, passes the check and is not rejected with the checksum error.
\<close>

theorem checksum_token_needs_comma:
  "(\<not> sublist ''CHK:'' rest \<longrightarrow>
      \<not> validateChecksum (''CHK:'' @ rest) \<and>
      parseMessage (''CHK:'' @ rest) s = (False, println ''Error: Invalid checksum'' s))
   \<and> validateChecksum (pre @ '',CHK:'' @ post)
   \<and> parseMessage (pre @ '',CHK:'' @ post) s \<noteq> (False, println ''Error: Invalid checksum'' s)"
proof -
  have "sublist '',CHK:'' (pre @ '',CHK:'' @ post)"
    by (rule sublist_appendI)
  then have v: "validateChecksum (pre @ '',CHK:'' @ post)"
    unfolding validateChecksum_iff .
  have n: "\<not> validateChecksum (''CHK:'' @ rest)" if "\<not> sublist ''CHK:'' rest"
  proof -
    from that have "\<not> sublist '',CHK:'' rest" using sublist_comma_CHK by blast
    then have "strstr rest '',CHK:'' = None" by (simp add: strstr_None_iff)
    then show ?thesis by (simp add: validateChecksum_def)
  qed
  show ?thesis
    using v n parseMessage_no_checksum parseMessage_checksum_cases by blast
qed

theorem checksum_token_needs_comma_witness:
  "\<not> sublist ''CHK:'' ''171,CPU:45.2,RAM:67.8,TEMP:58.5''
   \<and> parseMessage (''CHK:'' @ ''171,CPU:45.2,RAM:67.8,TEMP:58.5'') firmware_init
       = (False, println ''Error: Invalid checksum'' firmware_init)
   \<and> validateChecksum (''CPU:45.2'' @ '',CHK:'' @ ''171,RAM:67.8,TEMP:58.5'')"
proof -
  have h: "\<not> sublist ''CHK:'' ''171,CPU:45.2,RAM:67.8,TEMP:58.5''"
    unfolding strstr_None_iff [symmetric] by code_simp
  show ?thesis
    using h checksum_token_needs_comma [of "''171,CPU:45.2,RAM:67.8,TEMP:58.5''" firmware_init
                                           "''CPU:45.2''" "''171,RAM:67.8,TEMP:58.5''"]
    by blast
qed

section \<open>The decoder, field by field\<close>

lemma sscanf_ff_None: "strtod txt = None \<Longrightarrow> sscanf_ff sep txt ab = ab"
  by (simp add: sscanf_ff_def)

lemma sscanf_ff_first_only:
  "strtod txt = Some (v, r) \<Longrightarrow> r = [] \<or> hd r \<noteq> sep \<or> strtod (tl r) = None \<Longrightarrow>
   sscanf_ff sep txt ab = (float_of_double v, snd ab)"
  by (cases r) (auto simp: sscanf_ff_def)

lemma float_of_double_zero [simp]: "float_of_double (Flt 0) = Flt 0"
  by (simp add: round_fp_def)

lemma atof_None: "strtod txt = None \<Longrightarrow> float_of_double (atof txt) = Flt 0"
  by (simp add: atof_def round_fp_def)

lemma atoi_no_digits: "snd (strtol_digits txt) = [] \<Longrightarrow> atoi txt = 0"
  by (cases "strtol_digits txt") (simp add: atoi_def dec_value_def)

lemma atoi_not_integer: "\<not> starts_integer txt \<Longrightarrow> atoi txt = 0"
proof (rule atoi_no_digits)
  assume "\<not> starts_integer txt"
  then show "snd (strtol_digits txt) = []"
    by (cases "snd (sign_part (dropWhile isspace txt))")
      (simp_all add: starts_integer_def strtol_digits_def split_beta)
qed

lemma opt_freq_sel [simp]:
  "cpu_usage (opt_freq message m) = cpu_usage m"
  "ram_usage (opt_freq message m) = ram_usage m"
  "temperature (opt_freq message m) = temperature m"
  "gpu_usage (opt_freq message m) = gpu_usage m"
  "ram_used_gb (opt_freq message m) = ram_used_gb m"
  "ram_total_gb (opt_freq message m) = ram_total_gb m"
  "fan_rpm (opt_freq message m) = fan_rpm m"
  "net_download_mbps (opt_freq message m) = net_download_mbps m"
  "net_upload_mbps (opt_freq message m) = net_upload_mbps m"
  "battery_percent (opt_freq message m) = battery_percent m"
  "power_watts (opt_freq message m) = power_watts m"
  "last_update (opt_freq message m) = last_update m"
  "connected (opt_freq message m) = connected m"
  "power_save_mode (opt_freq message m) = power_save_mode m"
  "disconnect_time (opt_freq message m) = disconnect_time m"
  by (simp_all add: opt_freq_def split: option.split)

lemma opt_gpu_sel [simp]:
  "cpu_usage (opt_gpu message m) = cpu_usage m"
  "ram_usage (opt_gpu message m) = ram_usage m"
  "temperature (opt_gpu message m) = temperature m"
  "cpu_freq_ghz (opt_gpu message m) = cpu_freq_ghz m"
  "ram_used_gb (opt_gpu message m) = ram_used_gb m"
  "ram_total_gb (opt_gpu message m) = ram_total_gb m"
  "fan_rpm (opt_gpu message m) = fan_rpm m"
  "net_download_mbps (opt_gpu message m) = net_download_mbps m"
  "net_upload_mbps (opt_gpu message m) = net_upload_mbps m"
  "battery_percent (opt_gpu message m) = battery_percent m"
  "power_watts (opt_gpu message m) = power_watts m"
  "last_update (opt_gpu message m) = last_update m"
  "connected (opt_gpu message m) = connected m"
  "power_save_mode (opt_gpu message m) = power_save_mode m"
  "disconnect_time (opt_gpu message m) = disconnect_time m"
  by (simp_all add: opt_gpu_def split: option.split)

lemma opt_ramgb_sel [simp]:
  "cpu_usage (opt_ramgb message m) = cpu_usage m"
  "ram_usage (opt_ramgb message m) = ram_usage m"
  "temperature (opt_ramgb message m) = temperature m"
  "cpu_freq_ghz (opt_ramgb message m) = cpu_freq_ghz m"
  "gpu_usage (opt_ramgb message m) = gpu_usage m"
  "fan_rpm (opt_ramgb message m) = fan_rpm m"
  "net_download_mbps (opt_ramgb message m) = net_download_mbps m"
  "net_upload_mbps (opt_ramgb message m) = net_upload_mbps m"
  "battery_percent (opt_ramgb message m) = battery_percent m"
  "power_watts (opt_ramgb message m) = power_watts m"
  "last_update (opt_ramgb message m) = last_update m"
  "connected (opt_ramgb message m) = connected m"
  "power_save_mode (opt_ramgb message m) = power_save_mode m"
  "disconnect_time (opt_ramgb message m) = disconnect_time m"
  by (simp_all add: opt_ramgb_def split: option.split prod.split)

lemma opt_fan_sel [simp]:
  "cpu_usage (opt_fan message m) = cpu_usage m"
  "ram_usage (opt_fan message m) = ram_usage m"
  "temperature (opt_fan message m) = temperature m"
  "cpu_freq_ghz (opt_fan message m) = cpu_freq_ghz m"
  "gpu_usage (opt_fan message m) = gpu_usage m"
  "ram_used_gb (opt_fan message m) = ram_used_gb m"
  "ram_total_gb (opt_fan message m) = ram_total_gb m"
  "net_download_mbps (opt_fan message m) = net_download_mbps m"
  "net_upload_mbps (opt_fan message m) = net_upload_mbps m"
  "battery_percent (opt_fan message m) = battery_percent m"
  "power_watts (opt_fan message m) = power_watts m"
  "last_update (opt_fan message m) = last_update m"
  "connected (opt_fan message m) = connected m"
  "power_save_mode (opt_fan message m) = power_save_mode m"
  "disconnect_time (opt_fan message m) = disconnect_time m"
  by (simp_all add: opt_fan_def split: option.split)

lemma opt_net_sel [simp]:
  "cpu_usage (opt_net message m) = cpu_usage m"
  "ram_usage (opt_net message m) = ram_usage m"
  "temperature (opt_net message m) = temperature m"
  "cpu_freq_ghz (opt_net message m) = cpu_freq_ghz m"
  "gpu_usage (opt_net message m) = gpu_usage m"
  "ram_used_gb (opt_net message m) = ram_used_gb m"
  "ram_total_gb (opt_net message m) = ram_total_gb m"
  "fan_rpm (opt_net message m) = fan_rpm m"
  "battery_percent (opt_net message m) = battery_percent m"
  "power_watts (opt_net message m) = power_watts m"
  "last_update (opt_net message m) = last_update m"
  "connected (opt_net message m) = connected m"
  "power_save_mode (opt_net message m) = power_save_mode m"
  "disconnect_time (opt_net message m) = disconnect_time m"
  by (simp_all add: opt_net_def split: option.split prod.split)

lemma opt_bat_sel [simp]:
  "cpu_usage (opt_bat message m) = cpu_usage m"
  "ram_usage (opt_bat message m) = ram_usage m"
  "temperature (opt_bat message m) = temperature m"
  "cpu_freq_ghz (opt_bat message m) = cpu_freq_ghz m"
  "gpu_usage (opt_bat message m) = gpu_usage m"
  "ram_used_gb (opt_bat message m) = ram_used_gb m"
  "ram_total_gb (opt_bat message m) = ram_total_gb m"
  "fan_rpm (opt_bat message m) = fan_rpm m"
  "net_download_mbps (opt_bat message m) = net_download_mbps m"
  "net_upload_mbps (opt_bat message m) = net_upload_mbps m"
  "power_watts (opt_bat message m) = power_watts m"
  "last_update (opt_bat message m) = last_update m"
  "connected (opt_bat message m) = connected m"
  "power_save_mode (opt_bat message m) = power_save_mode m"
  "disconnect_time (opt_bat message m) = disconnect_time m"
  by (simp_all add: opt_bat_def split: option.split)

lemma opt_power_sel [simp]:
  "cpu_usage (opt_power message m) = cpu_usage m"
  "ram_usage (opt_power message m) = ram_usage m"
  "temperature (opt_power message m) = temperature m"
  "cpu_freq_ghz (opt_power message m) = cpu_freq_ghz m"
  "gpu_usage (opt_power message m) = gpu_usage m"
  "ram_used_gb (opt_power message m) = ram_used_gb m"
  "ram_total_gb (opt_power message m) = ram_total_gb m"
  "fan_rpm (opt_power message m) = fan_rpm m"
  "net_download_mbps (opt_power message m) = net_download_mbps m"
  "net_upload_mbps (opt_power message m) = net_upload_mbps m"
  "battery_percent (opt_power message m) = battery_percent m"
  "last_update (opt_power message m) = last_update m"
  "connected (opt_power message m) = connected m"
  "power_save_mode (opt_power message m) = power_save_mode m"
  "disconnect_time (opt_power message m) = disconnect_time m"
  by (simp_all add: opt_power_def split: option.split)

lemma parse_optional_required [simp]:
  "cpu_usage (parse_optional message m) = cpu_usage m"
  "ram_usage (parse_optional message m) = ram_usage m"
  "temperature (parse_optional message m) = temperature m"
  "last_update (parse_optional message m) = last_update m"
  "connected (parse_optional message m) = connected m"
  "power_save_mode (parse_optional message m) = power_save_mode m"
  "disconnect_time (parse_optional message m) = disconnect_time m"
  by (simp_all add: parse_optional_def)

lemma parse_optional_cpu_freq_ghz:
  "cpu_freq_ghz (parse_optional message m) =
     (case strstr message ''FREQ:'' of None \<Rightarrow> cpu_freq_ghz m | Some p \<Rightarrow> float_of_double (atof (drop 5 p)))"
  by (simp add: parse_optional_def) (simp add: opt_freq_def split: option.split)

lemma parse_optional_gpu_usage:
  "gpu_usage (parse_optional message m) =
     (case strstr message ''GPU:'' of None \<Rightarrow> gpu_usage m | Some p \<Rightarrow> float_of_double (atof (drop 4 p)))"
  by (simp add: parse_optional_def) (simp add: opt_gpu_def split: option.split)

lemma parse_optional_ram_gb:
  "(ram_used_gb (parse_optional message m), ram_total_gb (parse_optional message m)) =
     (case strstr message ''RAMGB:'' of
        None \<Rightarrow> (ram_used_gb m, ram_total_gb m)
      | Some p \<Rightarrow> sscanf_ff (CHR ''/'') (drop 6 p) (ram_used_gb m, ram_total_gb m))"
  by (simp add: parse_optional_def) (simp add: opt_ramgb_def split: option.split prod.split)

lemma parse_optional_fan_rpm:
  "fan_rpm (parse_optional message m) =
     (case strstr message ''FAN:'' of None \<Rightarrow> fan_rpm m | Some p \<Rightarrow> atoi (drop 4 p))"
  by (simp add: parse_optional_def) (simp add: opt_fan_def split: option.split)

lemma parse_optional_net:
  "(net_download_mbps (parse_optional message m), net_upload_mbps (parse_optional message m)) =
     (case strstr message ''NET:'' of
        None \<Rightarrow> (net_download_mbps m, net_upload_mbps m)
      | Some p \<Rightarrow> sscanf_ff (CHR '','') (drop 4 p) (net_download_mbps m, net_upload_mbps m))"
  by (simp add: parse_optional_def) (simp add: opt_net_def split: option.split prod.split)

lemma parse_optional_battery_percent:
  "battery_percent (parse_optional message m) =
     (case strstr message ''BAT:'' of None \<Rightarrow> battery_percent m | Some p \<Rightarrow> atoi (drop 4 p))"
  by (simp add: parse_optional_def) (simp add: opt_bat_def split: option.split)

lemma parse_optional_power_watts:
  "power_watts (parse_optional message m) =
     (case strstr message ''POWER:'' of None \<Rightarrow> power_watts m | Some p \<Rightarrow> float_of_double (atof (drop 6 p)))"
  by (simp add: parse_optional_def) (simp add: opt_power_def split: option.split)

lemma out_of_range_parse_optional [simp]:
  "out_of_range (parse_optional message m) = out_of_range m"
  by (simp add: out_of_range_def)

lemma parseMessage_required_present:
  assumes "validateChecksum message"
    and "strstr message ''CPU:'' = Some p1"
    and "strstr message ''RAM:'' = Some p2"
    and "strstr message ''TEMP:'' = Some p3"
  shows "parseMessage message s =
     (let m = parse_optional message
                ((reset_optional (metrics s))
                   \<lparr>cpu_usage := float_of_double (atof (drop 4 p1)), ram_usage := float_of_double (atof (drop 4 p2)),
                     temperature := float_of_double (atof (drop 5 p3))\<rparr>)
      in if out_of_range m
         then (False, println ''Error: Values out of range'' (s\<lparr>metrics := m\<rparr>))
         else (True, s\<lparr>metrics := m\<rparr>))"
  using assms by (simp add: parseMessage_def Let_def)

section \<open>Accepted messages\<close>

lemma in_range_less: "in_range v hi \<Longrightarrow> \<not> flt_less v (Flt 0) \<and> \<not> flt_less (Flt hi) v"
  by (cases v) (auto simp: in_range_def)

text \<open>
  Claim C5. A line with the checksum token and the three required keys, whose values are
  finite and in range (CPU and RAM in [0,100], TEMP in [0,150]), is accepted. The record
  then holds the parsed required values; every optional key that occurs in the line is
  populated from the text after its first occurrence, and every optional key that does not
  occur has its default. The link and power fields and the trace are unchanged. The
  values are those of the \<^verbatim>\<open>float\<close> fields: the line
  \<^verbatim>\<open>CPU:45.2,RAM:67.8,TEMP:58.5,CHK:171\<close> gives the binary32 numbers nearest to 45.2 and
  67.8, the number 58.5, and defaults elsewhere.
\<close>

theorem decode_valid_message:
  assumes "sublist '',CHK:'' message"
    and "strstr message ''CPU:'' = Some p1"
    and "strstr message ''RAM:'' = Some p2"
    and "strstr message ''TEMP:'' = Some p3"
    and "in_range (float_of_double (atof (drop 4 p1))) 100"
    and "in_range (float_of_double (atof (drop 4 p2))) 100"
    and "in_range (float_of_double (atof (drop 5 p3))) 150"
  shows "fst (parseMessage message s) \<and>
    (let s' = snd (parseMessage message s); m' = metrics s' in
       cpu_usage m' = float_of_double (atof (drop 4 p1)) \<and>
       ram_usage m' = float_of_double (atof (drop 4 p2)) \<and>
       temperature m' = float_of_double (atof (drop 5 p3)) \<and>
       cpu_freq_ghz m' =
         (case strstr message ''FREQ:'' of None \<Rightarrow> Flt 0 | Some p \<Rightarrow> float_of_double (atof (drop 5 p))) \<and>
       gpu_usage m' =
         (case strstr message ''GPU:'' of None \<Rightarrow> Flt 0 | Some p \<Rightarrow> float_of_double (atof (drop 4 p))) \<and>
       (ram_used_gb m', ram_total_gb m') =
         (case strstr message ''RAMGB:'' of
            None \<Rightarrow> (Flt 0, Flt 0)
          | Some p \<Rightarrow> sscanf_ff (CHR ''/'') (drop 6 p) (Flt 0, Flt 0)) \<and>
       fan_rpm m' =
         (case strstr message ''FAN:'' of None \<Rightarrow> 0 | Some p \<Rightarrow> atoi (drop 4 p)) \<and>
       (net_download_mbps m', net_upload_mbps m') =
         (case strstr message ''NET:'' of
            None \<Rightarrow> (Flt 0, Flt 0)
          | Some p \<Rightarrow> sscanf_ff (CHR '','') (drop 4 p) (Flt 0, Flt 0)) \<and>
       battery_percent m' =
         (case strstr message ''BAT:'' of None \<Rightarrow> - 1 | Some p \<Rightarrow> atoi (drop 4 p)) \<and>
       power_watts m' =
         (case strstr message ''POWER:'' of None \<Rightarrow> Flt 0 | Some p \<Rightarrow> float_of_double (atof (drop 6 p))) \<and>
       last_update m' = last_update (metrics s) \<and>
       connected m' = connected (metrics s) \<and>
       power_save_mode m' = power_save_mode (metrics s) \<and>
       disconnect_time m' = disconnect_time (metrics s) \<and>
       trace s' = trace s)"
proof -
  let ?m = "(reset_optional (metrics s))
              \<lparr>cpu_usage := float_of_double (atof (drop 4 p1)), ram_usage := float_of_double (atof (drop 4 p2)),
                temperature := float_of_double (atof (drop 5 p3))\<rparr>"
  have v: "validateChecksum message"
    using assms(1) by (simp add: validateChecksum_iff)
  have r: "\<not> out_of_range ?m"
    using in_range_less [OF assms(5)] in_range_less [OF assms(6)] in_range_less [OF assms(7)]
    by (simp add: out_of_range_def)
  have p: "parseMessage message s = (True, s\<lparr>metrics := parse_optional message ?m\<rparr>)"
    using parseMessage_required_present [OF v assms(2,3,4), of s] r by (simp add: Let_def)
  have d: "cpu_freq_ghz ?m = Flt 0" "gpu_usage ?m = Flt 0" "ram_used_gb ?m = Flt 0"
    "ram_total_gb ?m = Flt 0" "fan_rpm ?m = 0" "net_download_mbps ?m = Flt 0"
    "net_upload_mbps ?m = Flt 0" "battery_percent ?m = - 1" "power_watts ?m = Flt 0"
    by (simp_all add: reset_optional_def)
  have l: "last_update ?m = last_update (metrics s)" "connected ?m = connected (metrics s)"
    "power_save_mode ?m = power_save_mode (metrics s)"
    "disconnect_time ?m = disconnect_time (metrics s)"
    by (simp_all add: reset_optional_def)
  have m: "metrics (s\<lparr>metrics := parse_optional message ?m\<rparr>) = parse_optional message ?m"
    and t: "trace (s\<lparr>metrics := parse_optional message ?m\<rparr>) = trace s"
    by simp_all
  have q: "cpu_freq_ghz (parse_optional message ?m) =
         (case strstr message ''FREQ:'' of None \<Rightarrow> Flt 0 | Some p \<Rightarrow> float_of_double (atof (drop 5 p)))"
      "gpu_usage (parse_optional message ?m) =
         (case strstr message ''GPU:'' of None \<Rightarrow> Flt 0 | Some p \<Rightarrow> float_of_double (atof (drop 4 p)))"
      "(ram_used_gb (parse_optional message ?m), ram_total_gb (parse_optional message ?m)) =
         (case strstr message ''RAMGB:'' of
            None \<Rightarrow> (Flt 0, Flt 0)
          | Some p \<Rightarrow> sscanf_ff (CHR ''/'') (drop 6 p) (Flt 0, Flt 0))"
      "fan_rpm (parse_optional message ?m) =
         (case strstr message ''FAN:'' of None \<Rightarrow> 0 | Some p \<Rightarrow> atoi (drop 4 p))"
      "(net_download_mbps (parse_optional message ?m), net_upload_mbps (parse_optional message ?m)) =
         (case strstr message ''NET:'' of
            None \<Rightarrow> (Flt 0, Flt 0)
          | Some p \<Rightarrow> sscanf_ff (CHR '','') (drop 4 p) (Flt 0, Flt 0))"
      "battery_percent (parse_optional message ?m) =
         (case strstr message ''BAT:'' of None \<Rightarrow> - 1 | Some p \<Rightarrow> atoi (drop 4 p))"
      "power_watts (parse_optional message ?m) =
         (case strstr message ''POWER:'' of None \<Rightarrow> Flt 0 | Some p \<Rightarrow> float_of_double (atof (drop 6 p)))"
    unfolding parse_optional_cpu_freq_ghz parse_optional_gpu_usage parse_optional_ram_gb
      parse_optional_fan_rpm parse_optional_net parse_optional_battery_percent
      parse_optional_power_watts d
    by (rule refl)+
  have rq: "cpu_usage (parse_optional message ?m) = float_of_double (atof (drop 4 p1))"
    "ram_usage (parse_optional message ?m) = float_of_double (atof (drop 4 p2))"
    "temperature (parse_optional message ?m) = float_of_double (atof (drop 5 p3))"
    by simp_all
  have lq: "last_update (parse_optional message ?m) = last_update (metrics s)"
    "connected (parse_optional message ?m) = connected (metrics s)"
    "power_save_mode (parse_optional message ?m) = power_save_mode (metrics s)"
    "disconnect_time (parse_optional message ?m) = disconnect_time (metrics s)"
    unfolding parse_optional_required l by (rule refl)+
  show ?thesis
    unfolding p Let_def fst_conv snd_conv m t
    by (intro conjI TrueI q rq lq refl)
qed

theorem decode_valid_message_witness:
  "sublist '',CHK:'' ''CPU:45.2,RAM:67.8,TEMP:58.5,CHK:171'' \<and>
   fst (parseMessage ''CPU:45.2,RAM:67.8,TEMP:58.5,CHK:171'' firmware_init) \<and>
   (let m = metrics (snd (parseMessage ''CPU:45.2,RAM:67.8,TEMP:58.5,CHK:171'' firmware_init)) in
      cpu_usage m = Flt (11848909 / 262144) \<and> ram_usage m = Flt (4443341 / 65536) \<and>
      temperature m = Flt (117 / 2) \<and> cpu_freq_ghz m = Flt 0 \<and> gpu_usage m = Flt 0 \<and>
      ram_used_gb m = Flt 0 \<and> ram_total_gb m = Flt 0 \<and> fan_rpm m = 0 \<and>
      net_download_mbps m = Flt 0 \<and> net_upload_mbps m = Flt 0 \<and>
      battery_percent m = - 1 \<and> power_watts m = Flt 0) \<and>
   fst (parseMessage
     ''CPU:45.2,RAM:67.8,TEMP:58.5,FREQ:3.8,GPU:12.5,RAMGB:11.9/31.3,FAN:1500,NET:125.50,15.20,BAT:85,POWER:10.0,CHK:171''
     firmware_init) \<and>
   (let m = metrics (snd (parseMessage
     ''CPU:45.2,RAM:67.8,TEMP:58.5,FREQ:3.8,GPU:12.5,RAMGB:11.9/31.3,FAN:1500,NET:125.50,15.20,BAT:85,POWER:10.0,CHK:171''
     firmware_init)) in
      cpu_usage m = Flt (11848909 / 262144) \<and> ram_usage m = Flt (4443341 / 65536) \<and>
      temperature m = Flt (117 / 2) \<and> cpu_freq_ghz m = Flt (15938355 / 4194304) \<and>
      gpu_usage m = Flt (25 / 2) \<and>
      ram_used_gb m = Flt (6239027 / 524288) \<and> ram_total_gb m = Flt (8205107 / 262144) \<and>
      fan_rpm m = 1500 \<and>
      net_download_mbps m = Flt (251 / 2) \<and> net_upload_mbps m = Flt (15938355 / 1048576) \<and>
      battery_percent m = 85 \<and> power_watts m = Flt 10)"
proof -
  let ?l = "''CPU:45.2,RAM:67.8,TEMP:58.5,CHK:171''"
  have c: "sublist '',CHK:'' ?l"
    using strstr_None_iff [of ?l "'',CHK:''"] by code_simp
  have k: "strstr ?l ''CPU:'' = Some ?l"
    "strstr ?l ''RAM:'' = Some ''RAM:67.8,TEMP:58.5,CHK:171''"
    "strstr ?l ''TEMP:'' = Some ''TEMP:58.5,CHK:171''"
    by code_simp+
  have a: "float_of_double (atof (drop 4 ?l)) = Flt (11848909 / 262144)"
    "float_of_double (atof (drop 4 ''RAM:67.8,TEMP:58.5,CHK:171'')) = Flt (4443341 / 65536)"
    "float_of_double (atof (drop 5 ''TEMP:58.5,CHK:171'')) = Flt (117 / 2)"
    by code_simp+
  have i: "in_range (float_of_double (atof (drop 4 ?l))) 100"
    "in_range (float_of_double (atof (drop 4 ''RAM:67.8,TEMP:58.5,CHK:171''))) 100"
    "in_range (float_of_double (atof (drop 5 ''TEMP:58.5,CHK:171''))) 150"
    unfolding a by (simp_all add: in_range_def)
  have o: "strstr ?l ''FREQ:'' = None" "strstr ?l ''GPU:'' = None"
    "strstr ?l ''RAMGB:'' = None" "strstr ?l ''FAN:'' = None" "strstr ?l ''NET:'' = None"
    "strstr ?l ''BAT:'' = None" "strstr ?l ''POWER:'' = None"
    by code_simp+
  let ?f = "''CPU:45.2,RAM:67.8,TEMP:58.5,FREQ:3.8,GPU:12.5,RAMGB:11.9/31.3,FAN:1500,NET:125.50,15.20,BAT:85,POWER:10.0,CHK:171''"
  let ?r = "''RAM:67.8,TEMP:58.5,FREQ:3.8,GPU:12.5,RAMGB:11.9/31.3,FAN:1500,NET:125.50,15.20,BAT:85,POWER:10.0,CHK:171''"
  let ?t = "''TEMP:58.5,FREQ:3.8,GPU:12.5,RAMGB:11.9/31.3,FAN:1500,NET:125.50,15.20,BAT:85,POWER:10.0,CHK:171''"
  have fc: "sublist '',CHK:'' ?f"
    using strstr_None_iff [of ?f "'',CHK:''"] by code_simp
  have fk: "strstr ?f ''CPU:'' = Some ?f" "strstr ?f ''RAM:'' = Some ?r"
    "strstr ?f ''TEMP:'' = Some ?t"
    by code_simp+
  have fa: "float_of_double (atof (drop 4 ?f)) = Flt (11848909 / 262144)"
    "float_of_double (atof (drop 4 ?r)) = Flt (4443341 / 65536)"
    "float_of_double (atof (drop 5 ?t)) = Flt (117 / 2)"
    by code_simp+
  have fi: "in_range (float_of_double (atof (drop 4 ?f))) 100"
    "in_range (float_of_double (atof (drop 4 ?r))) 100"
    "in_range (float_of_double (atof (drop 5 ?t))) 150"
    unfolding fa by (simp_all add: in_range_def)
  have fo: "(case strstr ?f ''FREQ:'' of None \<Rightarrow> Flt 0
              | Some p \<Rightarrow> float_of_double (atof (drop 5 p))) = Flt (15938355 / 4194304)"
    "(case strstr ?f ''GPU:'' of None \<Rightarrow> Flt 0
              | Some p \<Rightarrow> float_of_double (atof (drop 4 p))) = Flt (25 / 2)"
    "(case strstr ?f ''RAMGB:'' of None \<Rightarrow> (Flt 0, Flt 0)
              | Some p \<Rightarrow> sscanf_ff (CHR ''/'') (drop 6 p) (Flt 0, Flt 0))
       = (Flt (6239027 / 524288), Flt (8205107 / 262144))"
    "(case strstr ?f ''FAN:'' of None \<Rightarrow> 0 | Some p \<Rightarrow> atoi (drop 4 p)) = 1500"
    "(case strstr ?f ''NET:'' of None \<Rightarrow> (Flt 0, Flt 0)
              | Some p \<Rightarrow> sscanf_ff (CHR '','') (drop 4 p) (Flt 0, Flt 0))
       = (Flt (251 / 2), Flt (15938355 / 1048576))"
    "(case strstr ?f ''BAT:'' of None \<Rightarrow> - 1 | Some p \<Rightarrow> atoi (drop 4 p)) = 85"
    "(case strstr ?f ''POWER:'' of None \<Rightarrow> Flt 0
              | Some p \<Rightarrow> float_of_double (atof (drop 6 p))) = Flt 10"
    by code_simp+
  have 1: "fst (parseMessage ?l firmware_init) \<and>
   (let m = metrics (snd (parseMessage ?l firmware_init)) in
      cpu_usage m = Flt (11848909 / 262144) \<and> ram_usage m = Flt (4443341 / 65536) \<and>
      temperature m = Flt (117 / 2) \<and> cpu_freq_ghz m = Flt 0 \<and> gpu_usage m = Flt 0 \<and>
      ram_used_gb m = Flt 0 \<and> ram_total_gb m = Flt 0 \<and> fan_rpm m = 0 \<and>
      net_download_mbps m = Flt 0 \<and> net_upload_mbps m = Flt 0 \<and>
      battery_percent m = - 1 \<and> power_watts m = Flt 0)"
    using decode_valid_message [OF c k i, of firmware_init]
    unfolding Let_def a o by simp
  have 2: "fst (parseMessage ?f firmware_init) \<and>
   (let m = metrics (snd (parseMessage ?f firmware_init)) in
      cpu_usage m = Flt (11848909 / 262144) \<and> ram_usage m = Flt (4443341 / 65536) \<and>
      temperature m = Flt (117 / 2) \<and> cpu_freq_ghz m = Flt (15938355 / 4194304) \<and>
      gpu_usage m = Flt (25 / 2) \<and>
      ram_used_gb m = Flt (6239027 / 524288) \<and> ram_total_gb m = Flt (8205107 / 262144) \<and>
      fan_rpm m = 1500 \<and>
      net_download_mbps m = Flt (251 / 2) \<and> net_upload_mbps m = Flt (15938355 / 1048576) \<and>
      battery_percent m = 85 \<and> power_watts m = Flt 10)"
    using decode_valid_message [OF fc fk fi, of firmware_init]
    unfolding Let_def fa fo by simp
  from c 1 2 show ?thesis by blast
qed

section \<open>Rejected messages and malformed values\<close>

lemma parseMessage_CPU_missing:
  "validateChecksum message \<Longrightarrow> strstr message ''CPU:'' = None \<Longrightarrow>
   parseMessage message s =
     (False, println ''Error: CPU field missing'' (s\<lparr>metrics := reset_optional (metrics s)\<rparr>))"
  by (simp add: parseMessage_def Let_def)

lemma parseMessage_RAM_missing:
  "validateChecksum message \<Longrightarrow> strstr message ''CPU:'' = Some p1 \<Longrightarrow>
   strstr message ''RAM:'' = None \<Longrightarrow>
   parseMessage message s =
     (False, println ''Error: RAM field missing''
        (s\<lparr>metrics := (reset_optional (metrics s))
            \<lparr>cpu_usage := float_of_double (atof (drop 4 p1))\<rparr>\<rparr>))"
  by (simp add: parseMessage_def Let_def)

lemma parseMessage_TEMP_missing:
  "validateChecksum message \<Longrightarrow> strstr message ''CPU:'' = Some p1 \<Longrightarrow>
   strstr message ''RAM:'' = Some p2 \<Longrightarrow> strstr message ''TEMP:'' = None \<Longrightarrow>
   parseMessage message s =
     (False, println ''Error: TEMP field missing''
        (s\<lparr>metrics := (reset_optional (metrics s))
            \<lparr>cpu_usage := float_of_double (atof (drop 4 p1)),
              ram_usage := float_of_double (atof (drop 4 p2))\<rparr>\<rparr>))"
  by (simp add: parseMessage_def Let_def)

lemma parseMessage_link [simp]:
  "last_update (metrics (snd (parseMessage message s))) = last_update (metrics s)"
  "connected (metrics (snd (parseMessage message s))) = connected (metrics s)"
  "power_save_mode (metrics (snd (parseMessage message s))) = power_save_mode (metrics s)"
  "disconnect_time (metrics (snd (parseMessage message s))) = disconnect_time (metrics s)"
  by (simp_all add: parseMessage_def Let_def println_def reset_optional_def split: option.split)

lemma parseMessage_buffer [simp]:
  "serialBuffer (snd (parseMessage message s)) = serialBuffer s"
  "bufferIndex (snd (parseMessage message s)) = bufferIndex s"
  "lastUpdate (snd (parseMessage message s)) = lastUpdate s"
  by (simp_all add: parseMessage_def Let_def println_def split: option.split)

lemma reset_optional_fields:
  "cpu_freq_ghz (reset_optional m) = Flt 0" "gpu_usage (reset_optional m) = Flt 0"
  "ram_used_gb (reset_optional m) = Flt 0" "ram_total_gb (reset_optional m) = Flt 0"
  "fan_rpm (reset_optional m) = 0" "net_download_mbps (reset_optional m) = Flt 0"
  "net_upload_mbps (reset_optional m) = Flt 0" "battery_percent (reset_optional m) = - 1"
  "power_watts (reset_optional m) = Flt 0"
  "cpu_usage (reset_optional m) = cpu_usage m" "ram_usage (reset_optional m) = ram_usage m"
  "temperature (reset_optional m) = temperature m"
  by (simp_all add: reset_optional_def)

lemma parseMessage_required_metrics:
  assumes "validateChecksum message"
    and "strstr message ''CPU:'' = Some p1"
    and "strstr message ''RAM:'' = Some p2"
    and "strstr message ''TEMP:'' = Some p3"
  shows "metrics (snd (parseMessage message s)) =
     parse_optional message
       ((reset_optional (metrics s))
          \<lparr>cpu_usage := float_of_double (atof (drop 4 p1)),
            ram_usage := float_of_double (atof (drop 4 p2)),
            temperature := float_of_double (atof (drop 5 p3))\<rparr>)"
    and "fst (parseMessage message s) =
     (\<not> (flt_less (float_of_double (atof (drop 4 p1))) (Flt 0) \<or>
         flt_less (Flt 100) (float_of_double (atof (drop 4 p1))) \<or>
         flt_less (float_of_double (atof (drop 4 p2))) (Flt 0) \<or>
         flt_less (Flt 100) (float_of_double (atof (drop 4 p2))) \<or>
         flt_less (float_of_double (atof (drop 5 p3))) (Flt 0) \<or>
         flt_less (Flt 150) (float_of_double (atof (drop 5 p3)))))"
  unfolding parseMessage_required_present [OF assms]
  by (simp_all add: Let_def println_def out_of_range_def)

lemma parseMessage_optional_fields:
  assumes "validateChecksum message"
    and "strstr message ''CPU:'' = Some p1"
    and "strstr message ''RAM:'' = Some p2"
    and "strstr message ''TEMP:'' = Some p3"
  shows "cpu_usage (metrics (snd (parseMessage message s))) = float_of_double (atof (drop 4 p1))"
    "ram_usage (metrics (snd (parseMessage message s))) = float_of_double (atof (drop 4 p2))"
    "temperature (metrics (snd (parseMessage message s))) = float_of_double (atof (drop 5 p3))"
    "cpu_freq_ghz (metrics (snd (parseMessage message s))) =
       (case strstr message ''FREQ:'' of None \<Rightarrow> Flt 0
        | Some p \<Rightarrow> float_of_double (atof (drop 5 p)))"
    "gpu_usage (metrics (snd (parseMessage message s))) =
       (case strstr message ''GPU:'' of None \<Rightarrow> Flt 0
        | Some p \<Rightarrow> float_of_double (atof (drop 4 p)))"
    "(ram_used_gb (metrics (snd (parseMessage message s))),
      ram_total_gb (metrics (snd (parseMessage message s)))) =
       (case strstr message ''RAMGB:'' of None \<Rightarrow> (Flt 0, Flt 0)
        | Some p \<Rightarrow> sscanf_ff (CHR ''/'') (drop 6 p) (Flt 0, Flt 0))"
    "fan_rpm (metrics (snd (parseMessage message s))) =
       (case strstr message ''FAN:'' of None \<Rightarrow> 0 | Some p \<Rightarrow> atoi (drop 4 p))"
    "(net_download_mbps (metrics (snd (parseMessage message s))),
      net_upload_mbps (metrics (snd (parseMessage message s)))) =
       (case strstr message ''NET:'' of None \<Rightarrow> (Flt 0, Flt 0)
        | Some p \<Rightarrow> sscanf_ff (CHR '','') (drop 4 p) (Flt 0, Flt 0))"
    "battery_percent (metrics (snd (parseMessage message s))) =
       (case strstr message ''BAT:'' of None \<Rightarrow> - 1 | Some p \<Rightarrow> atoi (drop 4 p))"
    "power_watts (metrics (snd (parseMessage message s))) =
       (case strstr message ''POWER:'' of None \<Rightarrow> Flt 0
        | Some p \<Rightarrow> float_of_double (atof (drop 6 p)))"
  unfolding parseMessage_required_metrics(1) [OF assms]
    parse_optional_cpu_freq_ghz parse_optional_gpu_usage parse_optional_ram_gb
    parse_optional_fan_rpm parse_optional_net parse_optional_battery_percent
    parse_optional_power_watts
  by (simp_all add: reset_optional_fields split: option.split)

subsection \<open>Texts that are not numbers\<close>

lemma strtod_special_None_iff:
  "strtod_special s = None \<longleftrightarrow> \<not> prefix ''inf'' (map tolower s) \<and> \<not> prefix ''nan'' (map tolower s)"
proof -
  have "prefix ''infinity'' l \<Longrightarrow> prefix ''inf'' l" for l :: string
    by (auto simp: prefix_def)
  then show ?thesis by (auto simp: strtod_special_def Let_def)
qed

lemma digit_zero: "isdigit (CHR ''0'')"
  by (simp add: isdigit_def)

lemma strtod_hex_Some_digit: "strtod_hex s = Some v \<Longrightarrow> \<exists>r. s = CHR ''0'' # r"
  by (auto simp: strtod_hex_def split: list.splits if_splits)

lemma strtod_decimal_None_iff:
  "strtod_decimal s = None \<longleftrightarrow>
     \<not> (case s of [] \<Rightarrow> False
        | c # r \<Rightarrow> isdigit c \<or> (c = CHR ''.'' \<and> (case r of [] \<Rightarrow> False | d # r' \<Rightarrow> isdigit d)))"
proof (cases s)
  case Nil
  then show ?thesis by (simp add: strtod_decimal_def mantissa_part_def)
next
  case (Cons c r)
  show ?thesis
  proof (cases "isdigit c")
    case True
    then show ?thesis
      using Cons by (auto simp: strtod_decimal_def mantissa_part_def Let_def split: list.splits prod.splits)
  next
    case False
    then have "c = CHR ''.'' \<Longrightarrow> (takeWhile isdigit r = []) = (case r of [] \<Rightarrow> True | d # r' \<Rightarrow> \<not> isdigit d)"
      by (cases r) auto
    with False show ?thesis
      using Cons by (auto simp: strtod_decimal_def mantissa_part_def Let_def split: list.splits prod.splits)
  qed
qed

lemma strtod_None_iff: "strtod txt = None \<longleftrightarrow> \<not> starts_number txt"
proof -
  let ?s2 = "snd (sign_part (dropWhile isspace txt))"
  have h: "strtod_hex ?s2 \<noteq> None \<Longrightarrow> strtod_decimal ?s2 \<noteq> None"
    using strtod_hex_Some_digit [of ?s2] digit_zero
    by (auto simp: strtod_decimal_None_iff)
  have "strtod txt = None \<longleftrightarrow>
      strtod_special ?s2 = None \<and> strtod_hex ?s2 = None \<and> strtod_decimal ?s2 = None"
    by (auto simp: strtod_def Let_def split_beta split: option.splits)
  also have "\<dots> \<longleftrightarrow> strtod_special ?s2 = None \<and> strtod_decimal ?s2 = None"
    using h by blast
  also have "\<dots> \<longleftrightarrow> \<not> starts_number txt"
    unfolding strtod_special_None_iff strtod_decimal_None_iff starts_number_def Let_def
    by blast
  finally show ?thesis .
qed

lemma strtod_non_numeric_start:
  assumes "\<not> isspace c" "c \<noteq> CHR ''-''" "c \<noteq> CHR ''+''" "\<not> isdigit c" "c \<noteq> CHR ''.''"
    "tolower c \<noteq> CHR ''i''" "tolower c \<noteq> CHR ''n''"
  shows "strtod (c # r) = None"
  unfolding strtod_None_iff using assms
  by (simp add: starts_number_def sign_part_def)




subsection \<open>What a rejected line leaves in the record\<close>


lemma rejected_no_checksum:
  "\<not> sublist '',CHK:'' message \<Longrightarrow> metrics (snd (parseMessage message s)) = metrics s"
  using parseMessage_no_checksum [of message s]
  by (simp add: validateChecksum_iff println_def)

lemma rejected_cpu_missing:
  assumes "sublist '',CHK:'' message" and "strstr message ''CPU:'' = None"
  shows "metrics (snd (parseMessage message s)) = reset_optional (metrics s)"
  using parseMessage_CPU_missing [of message s] assms
  by (simp add: validateChecksum_iff println_def)

lemma rejected_ram_missing:
  assumes "sublist '',CHK:'' message" and "strstr message ''CPU:'' = Some p1"
    and "strstr message ''RAM:'' = None"
  shows "metrics (snd (parseMessage message s)) =
    (reset_optional (metrics s))\<lparr>cpu_usage := float_of_double (atof (drop 4 p1))\<rparr>"
  using parseMessage_RAM_missing [of message p1 s] assms
  by (simp add: validateChecksum_iff println_def)

lemma rejected_temp_missing:
  assumes "sublist '',CHK:'' message" and "strstr message ''CPU:'' = Some p1"
    and "strstr message ''RAM:'' = Some p2" and "strstr message ''TEMP:'' = None"
  shows "metrics (snd (parseMessage message s)) =
    (reset_optional (metrics s))\<lparr>cpu_usage := float_of_double (atof (drop 4 p1)),
      ram_usage := float_of_double (atof (drop 4 p2))\<rparr>"
  using parseMessage_TEMP_missing [of message p1 p2 s] assms
  by (simp add: validateChecksum_iff println_def)

lemma rejected_missing_defaults:
  assumes "sublist '',CHK:'' message"
    and "strstr message ''CPU:'' = None \<or> strstr message ''RAM:'' = None
         \<or> strstr message ''TEMP:'' = None"
  shows "cpu_freq_ghz (metrics (snd (parseMessage message s))) = Flt 0 \<and>
    gpu_usage (metrics (snd (parseMessage message s))) = Flt 0 \<and>
    ram_used_gb (metrics (snd (parseMessage message s))) = Flt 0 \<and>
    ram_total_gb (metrics (snd (parseMessage message s))) = Flt 0 \<and>
    fan_rpm (metrics (snd (parseMessage message s))) = 0 \<and>
    net_download_mbps (metrics (snd (parseMessage message s))) = Flt 0 \<and>
    net_upload_mbps (metrics (snd (parseMessage message s))) = Flt 0 \<and>
    battery_percent (metrics (snd (parseMessage message s))) = - 1 \<and>
    power_watts (metrics (snd (parseMessage message s))) = Flt 0"
proof (cases "strstr message ''CPU:''")
  case None
  show ?thesis
    unfolding rejected_cpu_missing [OF assms(1) None]
    by (simp add: reset_optional_fields)
next
  case c: (Some p1)
  show ?thesis
  proof (cases "strstr message ''RAM:''")
    case None
    show ?thesis
      unfolding rejected_ram_missing [OF assms(1) c None]
      by (simp add: reset_optional_fields)
  next
    case r: (Some p2)
    with c assms(2) have t: "strstr message ''TEMP:'' = None" by simp
    show ?thesis
      unfolding rejected_temp_missing [OF assms(1) c r t]
      by (simp add: reset_optional_fields)
  qed
qed



subsection \<open>Optional values that cannot be converted\<close>

text \<open>
  Claim C4 as stated does not hold, in two ways. In the accepted line
  \<^verbatim>\<open>CPU:1,RAM:2,TEMP:3,BAT:x,CHK:1\<close> the key \<^verbatim>\<open>BAT:\<close> is followed by text without
  digits; \<^verbatim>\<open>atoi\<close> returns 0 and the battery field is 0, while the default of an absent
  key is -1. In the line \<^verbatim>\<open>CPU:1,RAM:2,FREQ:xTEMP:999,TEMP:3,CHK:1\<close> the text after
  \<^verbatim>\<open>FREQ:\<close> cannot be converted and contains the first occurrence of \<^verbatim>\<open>TEMP:\<close>: the
  temperature is read as 999 and the line is rejected, while the same line without the
  \<^verbatim>\<open>FREQ:\<close> token is accepted.
\<close>

theorem malformed_optional_value_counterexample:
  "strstr ''CPU:1,RAM:2,TEMP:3,BAT:x,CHK:1'' ''BAT:'' = Some ''BAT:x,CHK:1'' \<and>
   \<not> starts_integer ''x,CHK:1'' \<and>
   fst (parseMessage ''CPU:1,RAM:2,TEMP:3,BAT:x,CHK:1'' firmware_init) \<and>
   battery_percent (metrics (snd (parseMessage ''CPU:1,RAM:2,TEMP:3,BAT:x,CHK:1'' firmware_init))) = 0 \<and>
   battery_percent (metrics firmware_init) = - 1 \<and>
   strstr ''CPU:1,RAM:2,FREQ:xTEMP:999,TEMP:3,CHK:1'' ''FREQ:''
     = Some ''FREQ:xTEMP:999,TEMP:3,CHK:1'' \<and>
   \<not> starts_number ''xTEMP:999,TEMP:3,CHK:1'' \<and>
   \<not> fst (parseMessage ''CPU:1,RAM:2,FREQ:xTEMP:999,TEMP:3,CHK:1'' firmware_init) \<and>
   fst (parseMessage ''CPU:1,RAM:2,TEMP:3,CHK:1'' firmware_init)"
proof -
  let ?l = "''CPU:1,RAM:2,TEMP:3,BAT:x,CHK:1''"
  have v: "validateChecksum ?l" by code_simp
  have k: "strstr ?l ''CPU:'' = Some ?l"
    "strstr ?l ''RAM:'' = Some ''RAM:2,TEMP:3,BAT:x,CHK:1''"
    "strstr ?l ''TEMP:'' = Some ''TEMP:3,BAT:x,CHK:1''"
    by code_simp+
  have a: "float_of_double (atof (drop 4 ?l)) = Flt 1"
    "float_of_double (atof (drop 4 ''RAM:2,TEMP:3,BAT:x,CHK:1'')) = Flt 2"
    "float_of_double (atof (drop 5 ''TEMP:3,BAT:x,CHK:1'')) = Flt 3"
    by code_simp+
  have b: "strstr ?l ''BAT:'' = Some ''BAT:x,CHK:1''" by code_simp
  have d: "\<not> starts_integer ''x,CHK:1''" by code_simp
  have z: "(case strstr ?l ''BAT:'' of None \<Rightarrow> - 1 | Some p \<Rightarrow> atoi (drop 4 p)) = 0"
    by code_simp
  have 1: "fst (parseMessage ?l firmware_init)"
    unfolding parseMessage_required_metrics(2) [OF v k] a by simp
  have 2: "battery_percent (metrics (snd (parseMessage ?l firmware_init))) = 0"
    unfolding parseMessage_optional_fields(9) [OF v k] z ..
  have 3: "battery_percent (metrics firmware_init) = - 1"
    by (simp add: firmware_init_def metrics_init_def)
  let ?f = "''CPU:1,RAM:2,FREQ:xTEMP:999,TEMP:3,CHK:1''"
  have vf: "validateChecksum ?f" by code_simp
  have kf: "strstr ?f ''CPU:'' = Some ?f"
    "strstr ?f ''RAM:'' = Some ''RAM:2,FREQ:xTEMP:999,TEMP:3,CHK:1''"
    "strstr ?f ''TEMP:'' = Some ''TEMP:999,TEMP:3,CHK:1''"
    by code_simp+
  have af: "float_of_double (atof (drop 4 ?f)) = Flt 1"
    "float_of_double (atof (drop 4 ''RAM:2,FREQ:xTEMP:999,TEMP:3,CHK:1'')) = Flt 2"
    "float_of_double (atof (drop 5 ''TEMP:999,TEMP:3,CHK:1'')) = Flt 999"
    by code_simp+
  have bf: "strstr ?f ''FREQ:'' = Some ''FREQ:xTEMP:999,TEMP:3,CHK:1''"
    "\<not> starts_number ''xTEMP:999,TEMP:3,CHK:1''"
    by code_simp+
  have 4: "\<not> fst (parseMessage ?f firmware_init)"
    unfolding parseMessage_required_metrics(2) [OF vf kf] af by simp
  let ?g = "''CPU:1,RAM:2,TEMP:3,CHK:1''"
  have vg: "validateChecksum ?g" by code_simp
  have kg: "strstr ?g ''CPU:'' = Some ?g"
    "strstr ?g ''RAM:'' = Some ''RAM:2,TEMP:3,CHK:1''"
    "strstr ?g ''TEMP:'' = Some ''TEMP:3,CHK:1''"
    by code_simp+
  have ag: "float_of_double (atof (drop 4 ?g)) = Flt 1"
    "float_of_double (atof (drop 4 ''RAM:2,TEMP:3,CHK:1'')) = Flt 2"
    "float_of_double (atof (drop 5 ''TEMP:3,CHK:1'')) = Flt 3"
    by code_simp+
  have 5: "fst (parseMessage ?g firmware_init)"
    unfolding parseMessage_required_metrics(2) [OF vg kg] ag by simp
  from b d 1 2 3 bf 4 5 show ?thesis by blast
qed

text \<open>
  Claim C4, amended. Take a line with the checksum token and the three required keys.
  Whether it is accepted is decided by the range test on the values that follow the
  first occurrences of \<^verbatim>\<open>CPU:\<close>, \<^verbatim>\<open>RAM:\<close> and \<^verbatim>\<open>TEMP:\<close> alone: that an optional value
  cannot be converted is never tested. (The first occurrence of a required key can lie
  inside the text of an optional value, and then that text decides.) An optional key
  whose value cannot be converted leaves its field at 0: that is the default for the
  frequency, GPU, RAM size, fan, network and power fields, and it is 0, not the default
  -1, for the battery field. (A value cannot be converted when, after white space and an
  optional sign, no digit follows, nor, for the fields that hold a \<^verbatim>\<open>float\<close>, a point
  followed by a digit or one of the words \<^verbatim>\<open>inf\<close> and \<^verbatim>\<open>nan\<close>.) For the RAM size and network fields, which take two numbers,
  when the first number is converted and the separator or the second number is not, the
  first field holds the first number and the second field holds its default 0.
\<close>

theorem malformed_optional_value:
  assumes "sublist '',CHK:'' message"
    and "strstr message ''CPU:'' = Some p1"
    and "strstr message ''RAM:'' = Some p2"
    and "strstr message ''TEMP:'' = Some p3"
  shows "(let m' = metrics (snd (parseMessage message s)) in
     fst (parseMessage message s) =
       (\<not> (flt_less (float_of_double (atof (drop 4 p1))) (Flt 0) \<or>
           flt_less (Flt 100) (float_of_double (atof (drop 4 p1))) \<or>
           flt_less (float_of_double (atof (drop 4 p2))) (Flt 0) \<or>
           flt_less (Flt 100) (float_of_double (atof (drop 4 p2))) \<or>
           flt_less (float_of_double (atof (drop 5 p3))) (Flt 0) \<or>
           flt_less (Flt 150) (float_of_double (atof (drop 5 p3))))) \<and>
     (\<forall>p. strstr message ''FREQ:'' = Some p \<and> \<not> starts_number (drop 5 p) \<longrightarrow>
        cpu_freq_ghz m' = Flt 0) \<and>
     (\<forall>p. strstr message ''GPU:'' = Some p \<and> \<not> starts_number (drop 4 p) \<longrightarrow>
        gpu_usage m' = Flt 0) \<and>
     (\<forall>p. strstr message ''RAMGB:'' = Some p \<and> \<not> starts_number (drop 6 p) \<longrightarrow>
        ram_used_gb m' = Flt 0 \<and> ram_total_gb m' = Flt 0) \<and>
     (\<forall>p v r. strstr message ''RAMGB:'' = Some p \<and> strtod (drop 6 p) = Some (v, r) \<and>
        (r = [] \<or> hd r \<noteq> CHR ''/'' \<or> \<not> starts_number (tl r)) \<longrightarrow>
        ram_used_gb m' = float_of_double v \<and> ram_total_gb m' = Flt 0) \<and>
     (\<forall>p. strstr message ''FAN:'' = Some p \<and> \<not> starts_integer (drop 4 p) \<longrightarrow>
        fan_rpm m' = 0) \<and>
     (\<forall>p. strstr message ''NET:'' = Some p \<and> \<not> starts_number (drop 4 p) \<longrightarrow>
        net_download_mbps m' = Flt 0 \<and> net_upload_mbps m' = Flt 0) \<and>
     (\<forall>p v r. strstr message ''NET:'' = Some p \<and> strtod (drop 4 p) = Some (v, r) \<and>
        (r = [] \<or> hd r \<noteq> CHR '','' \<or> \<not> starts_number (tl r)) \<longrightarrow>
        net_download_mbps m' = float_of_double v \<and> net_upload_mbps m' = Flt 0) \<and>
     (\<forall>p. strstr message ''BAT:'' = Some p \<and> \<not> starts_integer (drop 4 p) \<longrightarrow>
        battery_percent m' = 0) \<and>
     (\<forall>p. strstr message ''POWER:'' = Some p \<and> \<not> starts_number (drop 6 p) \<longrightarrow>
        power_watts m' = Flt 0))"
proof -
  let ?m' = "metrics (snd (parseMessage message s))"
  have v: "validateChecksum message"
    using assms(1) by (simp add: validateChecksum_iff)
  note o = parseMessage_optional_fields [OF v assms(2,3,4), of s]
  have 1: "\<forall>p. strstr message ''FREQ:'' = Some p \<and> \<not> starts_number (drop 5 p) \<longrightarrow>
      cpu_freq_ghz ?m' = Flt 0"
    unfolding o(4) by (simp add: atof_None strtod_None_iff)
  have 2: "\<forall>p. strstr message ''GPU:'' = Some p \<and> \<not> starts_number (drop 4 p) \<longrightarrow>
      gpu_usage ?m' = Flt 0"
    unfolding o(5) by (simp add: atof_None strtod_None_iff)
  have 3: "\<forall>p. strstr message ''RAMGB:'' = Some p \<and> \<not> starts_number (drop 6 p) \<longrightarrow>
      ram_used_gb ?m' = Flt 0 \<and> ram_total_gb ?m' = Flt 0"
    using o(6) by (auto simp: sscanf_ff_None strtod_None_iff)
  have 4: "\<forall>p v r. strstr message ''RAMGB:'' = Some p \<and> strtod (drop 6 p) = Some (v, r) \<and>
      (r = [] \<or> hd r \<noteq> CHR ''/'' \<or> \<not> starts_number (tl r)) \<longrightarrow>
      ram_used_gb ?m' = float_of_double v \<and> ram_total_gb ?m' = Flt 0"
  proof (intro allI impI)
    fix p v r
    assume h: "strstr message ''RAMGB:'' = Some p \<and> strtod (drop 6 p) = Some (v, r) \<and>
      (r = [] \<or> hd r \<noteq> CHR ''/'' \<or> \<not> starts_number (tl r))"
    then have "sscanf_ff (CHR ''/'') (drop 6 p) (Flt 0, Flt 0) = (float_of_double v, Flt 0)"
      using sscanf_ff_first_only [of "drop 6 p" v r "CHR ''/''" "(Flt 0, Flt 0)"]
      by (simp add: strtod_None_iff)
    with o(6) h show "ram_used_gb ?m' = float_of_double v \<and> ram_total_gb ?m' = Flt 0"
      by simp
  qed
  have 5: "\<forall>p. strstr message ''FAN:'' = Some p \<and> \<not> starts_integer (drop 4 p) \<longrightarrow>
      fan_rpm ?m' = 0"
    unfolding o(7) by (simp add: atoi_not_integer)
  have 6: "\<forall>p. strstr message ''NET:'' = Some p \<and> \<not> starts_number (drop 4 p) \<longrightarrow>
      net_download_mbps ?m' = Flt 0 \<and> net_upload_mbps ?m' = Flt 0"
    using o(8) by (auto simp: sscanf_ff_None strtod_None_iff)
  have 7: "\<forall>p v r. strstr message ''NET:'' = Some p \<and> strtod (drop 4 p) = Some (v, r) \<and>
      (r = [] \<or> hd r \<noteq> CHR '','' \<or> \<not> starts_number (tl r)) \<longrightarrow>
      net_download_mbps ?m' = float_of_double v \<and> net_upload_mbps ?m' = Flt 0"
  proof (intro allI impI)
    fix p v r
    assume h: "strstr message ''NET:'' = Some p \<and> strtod (drop 4 p) = Some (v, r) \<and>
      (r = [] \<or> hd r \<noteq> CHR '','' \<or> \<not> starts_number (tl r))"
    then have "sscanf_ff (CHR '','') (drop 4 p) (Flt 0, Flt 0) = (float_of_double v, Flt 0)"
      using sscanf_ff_first_only [of "drop 4 p" v r "CHR '',''" "(Flt 0, Flt 0)"]
      by (simp add: strtod_None_iff)
    with o(8) h show "net_download_mbps ?m' = float_of_double v \<and> net_upload_mbps ?m' = Flt 0"
      by simp
  qed
  have 8: "\<forall>p. strstr message ''BAT:'' = Some p \<and> \<not> starts_integer (drop 4 p) \<longrightarrow>
      battery_percent ?m' = 0"
    unfolding o(9) by (simp add: atoi_not_integer)
  have 9: "\<forall>p. strstr message ''POWER:'' = Some p \<and> \<not> starts_number (drop 6 p) \<longrightarrow>
      power_watts ?m' = Flt 0"
    unfolding o(10) by (simp add: atof_None strtod_None_iff)
  show ?thesis
    unfolding Let_def
    by (intro conjI parseMessage_required_metrics(2) [OF v assms(2,3,4)] 1 2 3 4 5 6 7 8 9)
qed

theorem malformed_optional_value_witness:
  "sublist '',CHK:''
     ''CPU:1,RAM:2,TEMP:3,FREQ:abc,RAMGB:11.9/x,FAN:?,NET:,BAT:x,POWER:-,CHK:1'' \<and>
   fst (parseMessage
     ''CPU:1,RAM:2,TEMP:3,FREQ:abc,RAMGB:11.9/x,FAN:?,NET:,BAT:x,POWER:-,CHK:1'' firmware_init) \<and>
   (let m' = metrics (snd (parseMessage
     ''CPU:1,RAM:2,TEMP:3,FREQ:abc,RAMGB:11.9/x,FAN:?,NET:,BAT:x,POWER:-,CHK:1'' firmware_init))
    in cpu_freq_ghz m' = Flt 0 \<and> ram_used_gb m' = Flt (6239027 / 524288) \<and>
       ram_total_gb m' = Flt 0 \<and> fan_rpm m' = 0 \<and> net_download_mbps m' = Flt 0 \<and>
       net_upload_mbps m' = Flt 0 \<and> battery_percent m' = 0 \<and> power_watts m' = Flt 0)"
proof -
  let ?l = "''CPU:1,RAM:2,TEMP:3,FREQ:abc,RAMGB:11.9/x,FAN:?,NET:,BAT:x,POWER:-,CHK:1''"
  have c: "sublist '',CHK:'' ?l"
    using strstr_None_iff [of ?l "'',CHK:''"] by code_simp
  have k: "strstr ?l ''CPU:'' = Some ?l"
    "strstr ?l ''RAM:'' = Some ''RAM:2,TEMP:3,FREQ:abc,RAMGB:11.9/x,FAN:?,NET:,BAT:x,POWER:-,CHK:1''"
    "strstr ?l ''TEMP:'' = Some ''TEMP:3,FREQ:abc,RAMGB:11.9/x,FAN:?,NET:,BAT:x,POWER:-,CHK:1''"
    by code_simp+
  have a: "float_of_double (atof (drop 4 ?l)) = Flt 1"
    "float_of_double (atof (drop 4
       ''RAM:2,TEMP:3,FREQ:abc,RAMGB:11.9/x,FAN:?,NET:,BAT:x,POWER:-,CHK:1'')) = Flt 2"
    "float_of_double (atof (drop 5
       ''TEMP:3,FREQ:abc,RAMGB:11.9/x,FAN:?,NET:,BAT:x,POWER:-,CHK:1'')) = Flt 3"
    by code_simp+
  have b1: "strstr ?l ''FREQ:'' = Some ''FREQ:abc,RAMGB:11.9/x,FAN:?,NET:,BAT:x,POWER:-,CHK:1''
      \<and> \<not> starts_number (drop 5 ''FREQ:abc,RAMGB:11.9/x,FAN:?,NET:,BAT:x,POWER:-,CHK:1'')"
    by code_simp
  have b2: "strstr ?l ''RAMGB:'' = Some ''RAMGB:11.9/x,FAN:?,NET:,BAT:x,POWER:-,CHK:1'' \<and>
      strtod (drop 6 ''RAMGB:11.9/x,FAN:?,NET:,BAT:x,POWER:-,CHK:1'')
        = Some (Flt (6699104445713613 / 562949953421312), ''/x,FAN:?,NET:,BAT:x,POWER:-,CHK:1'') \<and>
      (''/x,FAN:?,NET:,BAT:x,POWER:-,CHK:1'' = [] \<or>
       hd ''/x,FAN:?,NET:,BAT:x,POWER:-,CHK:1'' \<noteq> CHR ''/'' \<or>
       \<not> starts_number (tl ''/x,FAN:?,NET:,BAT:x,POWER:-,CHK:1''))"
    by code_simp
  have b2v: "float_of_double (Flt (6699104445713613 / 562949953421312)) = Flt (6239027 / 524288)"
    by code_simp
  have b3: "strstr ?l ''FAN:'' = Some ''FAN:?,NET:,BAT:x,POWER:-,CHK:1''
      \<and> \<not> starts_integer (drop 4 ''FAN:?,NET:,BAT:x,POWER:-,CHK:1'')"
    by code_simp
  have b4: "strstr ?l ''NET:'' = Some ''NET:,BAT:x,POWER:-,CHK:1''
      \<and> \<not> starts_number (drop 4 ''NET:,BAT:x,POWER:-,CHK:1'')"
    by code_simp
  have b5: "strstr ?l ''BAT:'' = Some ''BAT:x,POWER:-,CHK:1''
      \<and> \<not> starts_integer (drop 4 ''BAT:x,POWER:-,CHK:1'')"
    by code_simp
  have b6: "strstr ?l ''POWER:'' = Some ''POWER:-,CHK:1''
      \<and> \<not> starts_number (drop 6 ''POWER:-,CHK:1'')"
    by code_simp
  note e = malformed_optional_value [OF c k, of firmware_init, unfolded Let_def a]
  have 0: "fst (parseMessage ?l firmware_init)"
    using e [THEN conjunct1] by simp
  note r = e [THEN conjunct2]
  have 1: "cpu_freq_ghz (metrics (snd (parseMessage ?l firmware_init))) = Flt 0"
    using r [THEN conjunct1, rule_format, OF b1] .
  note r = r [THEN conjunct2, THEN conjunct2, THEN conjunct2]
  have 2: "ram_used_gb (metrics (snd (parseMessage ?l firmware_init))) = Flt (6239027 / 524288)"
    "ram_total_gb (metrics (snd (parseMessage ?l firmware_init))) = Flt 0"
    using r [THEN conjunct1, rule_format, OF b2] unfolding b2v by blast+
  note r = r [THEN conjunct2]
  have 3: "fan_rpm (metrics (snd (parseMessage ?l firmware_init))) = 0"
    using r [THEN conjunct1, rule_format, OF b3] .
  note r = r [THEN conjunct2]
  have 4: "net_download_mbps (metrics (snd (parseMessage ?l firmware_init))) = Flt 0"
    "net_upload_mbps (metrics (snd (parseMessage ?l firmware_init))) = Flt 0"
    using r [THEN conjunct1, rule_format, OF b4] by blast+
  note r = r [THEN conjunct2, THEN conjunct2]
  have 5: "battery_percent (metrics (snd (parseMessage ?l firmware_init))) = 0"
    using r [THEN conjunct1, rule_format, OF b5] .
  have 6: "power_watts (metrics (snd (parseMessage ?l firmware_init))) = Flt 0"
    using r [THEN conjunct2, rule_format, OF b6] .
  show ?thesis
    unfolding Let_def using c 0 1 2 3 4 5 6 by blast
qed

section \<open>Liveness monitor and power manager\<close>

lemma println_fields [simp]:
  "metrics (println msg s) = metrics s"
  "serialBuffer (println msg s) = serialBuffer s"
  "bufferIndex (println msg s) = bufferIndex s"
  "lastUpdate (println msg s) = lastUpdate s"
  "trace (println msg s) = trace s @ [Println msg]"
  by (simp_all add: println_def)

lemma emit_fields [simp]:
  "metrics (emit e s) = metrics s"
  "serialBuffer (emit e s) = serialBuffer s"
  "bufferIndex (emit e s) = bufferIndex s"
  "lastUpdate (emit e s) = lastUpdate s"
  "trace (emit e s) = trace s @ [e]"
  by (simp_all add: emit_def)

lemma checkConnectionStatus_fires:
  "connected (metrics s) \<Longrightarrow> t1 - last_update (metrics s) > DATA_TIMEOUT_MS \<Longrightarrow>
   checkConnectionStatus t1 t2 s =
     println ''Connection lost - no data received''
       (s\<lparr>metrics := (metrics s)\<lparr>connected := False, disconnect_time := t2\<rparr>\<rparr>)"
  by (simp add: checkConnectionStatus_def Let_def)

lemma checkConnectionStatus_idle:
  "\<not> (connected (metrics s) \<and> t1 - last_update (metrics s) > DATA_TIMEOUT_MS) \<Longrightarrow>
   checkConnectionStatus t1 t2 s = s"
  by (auto simp: checkConnectionStatus_def Let_def)

lemma enterPowerSaveMode_fields [simp]:
  "connected (metrics (enterPowerSaveMode s)) = connected (metrics s)"
  "disconnect_time (metrics (enterPowerSaveMode s)) = disconnect_time (metrics s)"
  "last_update (metrics (enterPowerSaveMode s)) = last_update (metrics s)"
  "power_save_mode (metrics (enterPowerSaveMode s)) = True"
  "lastUpdate (enterPowerSaveMode s) = lastUpdate s"
  by (simp_all add: enterPowerSaveMode_def Let_def)

lemma exitPowerSaveMode_fields [simp]:
  "connected (metrics (exitPowerSaveMode s)) = connected (metrics s)"
  "disconnect_time (metrics (exitPowerSaveMode s)) = disconnect_time (metrics s)"
  "last_update (metrics (exitPowerSaveMode s)) = last_update (metrics s)"
  "power_save_mode (metrics (exitPowerSaveMode s)) = False"
  "lastUpdate (exitPowerSaveMode s) = lastUpdate s"
  by (simp_all add: exitPowerSaveMode_def Let_def)

lemma managePowerSaving_fields [simp]:
  "connected (metrics (managePowerSaving now s)) = connected (metrics s)"
  "disconnect_time (metrics (managePowerSaving now s)) = disconnect_time (metrics s)"
  "last_update (metrics (managePowerSaving now s)) = last_update (metrics s)"
  "lastUpdate (managePowerSaving now s) = lastUpdate s"
  by (simp_all add: managePowerSaving_def Let_def)

lemma managePowerSaving_mode:
  "power_save_mode (metrics (managePowerSaving now s)) =
     (\<not> connected (metrics s) \<and>
      (power_save_mode (metrics s) \<or> now - disconnect_time (metrics s) > POWER_SAVE_DELAY_MS))"
  by (auto simp: managePowerSaving_def Let_def)

lemma enterPowerSaveMode_trace:
  "\<not> power_save_mode (metrics s) \<Longrightarrow>
   trace (enterPowerSaveMode s) = trace s @
     [Println ''Entering power save mode...'', Set_Backlight 0, SetCpuFrequencyMhz 80,
      Println ''CPU frequency reduced to 80MHz'', Println ''Power save mode active'']"
  by (simp add: enterPowerSaveMode_def Let_def POWER_SAVE_BACKLIGHT_def ENABLE_CPU_FREQ_SCALING_def)

lemma exitPowerSaveMode_trace:
  "power_save_mode (metrics s) \<Longrightarrow>
   trace (exitPowerSaveMode s) = trace s @
     [Println ''Exiting power save mode...'', Set_Backlight 5, SetCpuFrequencyMhz 160,
      Println ''CPU frequency restored to 160MHz'', Println ''Power save mode disabled'']"
  by (simp add: exitPowerSaveMode_def Let_def NORMAL_BACKLIGHT_def ENABLE_CPU_FREQ_SCALING_def)

lemma managePowerSaving_trace:
  "trace (managePowerSaving now s) = trace s @
     (if \<not> connected (metrics s) then
        (if now - disconnect_time (metrics s) > POWER_SAVE_DELAY_MS \<and> \<not> power_save_mode (metrics s)
         then [Println ''Entering power save mode...'', Set_Backlight 0, SetCpuFrequencyMhz 80,
               Println ''CPU frequency reduced to 80MHz'', Println ''Power save mode active'']
         else [])
      else
        (if power_save_mode (metrics s)
         then [Println ''Exiting power save mode...'', Set_Backlight 5, SetCpuFrequencyMhz 160,
               Println ''CPU frequency restored to 160MHz'', Println ''Power save mode disabled'']
         else []))"
  by (simp add: managePowerSaving_def Let_def enterPowerSaveMode_trace exitPowerSaveMode_trace)

lemma updateDisplay_metrics [simp]: "metrics (updateDisplay now s) = metrics s"
  by (simp add: updateDisplay_def Let_def)

lemma updateDisplay_trace:
  "\<exists>post. trace (updateDisplay now s) = trace s @ post \<and> connection_lost \<notin> set post"
  by (simp add: updateDisplay_def Let_def connection_lost_def)


lemma deliver_fields [simp]:
  "disconnect_time (metrics (deliver now message s)) = disconnect_time (metrics s)"
  "power_save_mode (metrics (deliver now message s)) = power_save_mode (metrics s)"
  "serialBuffer (deliver now message s) = serialBuffer s"
  "bufferIndex (deliver now message s) = bufferIndex s"
  "lastUpdate (deliver now message s) = lastUpdate s"
  by (simp_all add: deliver_def Let_def split_beta)

lemma deliver_connected:
  "connected (metrics (deliver now message s)) =
     (connected (metrics s) \<or> fst (parseMessage message (emit (Call_parseMessage message) s)))"
  by (simp add: deliver_def Let_def split_beta)

lemma serial_byte_connected:
  "connected (metrics (serial_byte now c s)) =
     (connected (metrics s) \<or>
      (is_terminator c \<and> 0 < bufferIndex s \<and>
       fst (parseMessage (c_str ((serialBuffer s)[bufferIndex s := CHR 0x00]))
              (emit (Call_parseMessage (c_str ((serialBuffer s)[bufferIndex s := CHR 0x00])))
                 (s\<lparr>serialBuffer := (serialBuffer s)[bufferIndex s := CHR 0x00]\<rparr>)))))"
  by (simp add: serial_byte_def Let_def deliver_connected)

lemma serial_byte_fields [simp]:
  "disconnect_time (metrics (serial_byte now c s)) = disconnect_time (metrics s)"
  "power_save_mode (metrics (serial_byte now c s)) = power_save_mode (metrics s)"
  "lastUpdate (serial_byte now c s) = lastUpdate s"
  by (simp_all add: serial_byte_def Let_def)

lemma processSerialData_fields [simp]:
  "disconnect_time (metrics (processSerialData input s)) = disconnect_time (metrics s)"
  "power_save_mode (metrics (processSerialData input s)) = power_save_mode (metrics s)"
  "lastUpdate (processSerialData input s) = lastUpdate s"
  by (induction input s rule: processSerialData.induct) simp_all

lemma loop_check:
  "\<exists>post. trace (loop input clk s) =
      trace (checkConnectionStatus (t_check clk) (t_disc clk) (processSerialData input s)) @ post
     \<and> connection_lost \<notin> set post"
proof -
  let ?s2 = "checkConnectionStatus (t_check clk) (t_disc clk) (processSerialData input s)"
  let ?s3 = "managePowerSaving (t_power clk) ?s2"
  obtain post where p: "trace (updateDisplay (t_display clk) ?s3) = trace ?s3 @ post"
    "connection_lost \<notin> set post"
    using updateDisplay_trace by blast
  have "\<exists>mid. trace ?s3 = trace ?s2 @ mid \<and> connection_lost \<notin> set mid"
    by (simp add: managePowerSaving_trace connection_lost_def)
  then obtain mid where m: "trace ?s3 = trace ?s2 @ mid" "connection_lost \<notin> set mid"
    by blast
  have "trace (loop input clk s) = trace ?s2 @ (mid @ post @
      [Timer_Loop, Delay (if power_save_mode (metrics ?s3) then 100 else 5)])"
    by (simp add: loop_def Let_def p m)
  moreover have "connection_lost \<notin> set (mid @ post @
      [Timer_Loop, Delay (if power_save_mode (metrics ?s3) then 100 else 5)])"
    using p(2) m(2) by (simp add: connection_lost_def)
  ultimately show ?thesis by blast
qed

lemma loop_link_fields:
  "connected (metrics (loop input clk s)) =
     connected (metrics (checkConnectionStatus (t_check clk) (t_disc clk) (processSerialData input s)))"
  "disconnect_time (metrics (loop input clk s)) =
     disconnect_time (metrics (checkConnectionStatus (t_check clk) (t_disc clk) (processSerialData input s)))"
  by (simp_all add: loop_def Let_def)

lemma parseMessage_lost_count:
  "count_list (trace (snd (parseMessage message s))) connection_lost
     = count_list (trace s) connection_lost"
  by (simp add: parseMessage_def Let_def connection_lost_def split: option.split)

lemma deliver_lost_count:
  "count_list (trace (deliver now message s)) connection_lost
     = count_list (trace s) connection_lost"
proof -
  let ?e = "emit (Call_parseMessage message) s"
  have "count_list (trace (deliver now message s)) connection_lost
      = count_list (trace (snd (parseMessage message ?e))) connection_lost"
    by (simp add: deliver_def Let_def split_beta connection_lost_def)
  also have "\<dots> = count_list (trace ?e) connection_lost"
    by (rule parseMessage_lost_count)
  also have "\<dots> = count_list (trace s) connection_lost"
    by (simp add: connection_lost_def)
  finally show ?thesis .
qed

lemma serial_byte_lost_count:
  "count_list (trace (serial_byte now c s)) connection_lost
     = count_list (trace s) connection_lost"
proof -
  let ?s1 = "s\<lparr>serialBuffer := (serialBuffer s)[bufferIndex s := CHR 0x00]\<rparr>"
  have "count_list (trace (deliver now (c_str (serialBuffer ?s1)) ?s1)) connection_lost
      = count_list (trace s) connection_lost"
    using deliver_lost_count [of now "c_str (serialBuffer ?s1)" ?s1] by simp
  then show ?thesis
    by (simp add: serial_byte_def Let_def connection_lost_def)
qed

lemma processSerialData_lost_count:
  "count_list (trace (processSerialData input s)) connection_lost
     = count_list (trace s) connection_lost"
  by (induction input s rule: processSerialData.induct) (simp_all add: serial_byte_lost_count)

lemma checkConnectionStatus_last_update [simp]:
  "last_update (metrics (checkConnectionStatus t1 t2 s)) = last_update (metrics s)"
  by (simp add: checkConnectionStatus_def Let_def)

lemma loop_last_update:
  "last_update (metrics (loop input clk s)) = last_update (metrics (processSerialData input s))"
  by (simp add: loop_def Let_def)

lemma loop_connected:
  "connected (metrics (loop input clk s)) =
     (connected (metrics (processSerialData input s)) \<and>
      \<not> timed_out (processSerialData input s) clk)"
  by (simp add: loop_link_fields checkConnectionStatus_def Let_def DATA_TIMEOUT_MS_def
      timed_out_def)

lemma loop_disconnect_time:
  "disconnect_time (metrics (loop input clk s)) =
     (if connected (metrics (processSerialData input s)) \<and>
         timed_out (processSerialData input s) clk
      then t_disc clk else disconnect_time (metrics s))"
  by (simp add: loop_link_fields checkConnectionStatus_def Let_def DATA_TIMEOUT_MS_def
      timed_out_def)

lemma loop_lost_count:
  "count_list (trace (loop input clk s)) connection_lost =
     count_list (trace s) connection_lost +
       (if connected (metrics (processSerialData input s)) \<and>
           timed_out (processSerialData input s) clk then 1 else 0)"
proof -
  let ?s1 = "processSerialData input s"
  obtain post where p:
    "trace (loop input clk s) = trace (checkConnectionStatus (t_check clk) (t_disc clk) ?s1) @ post"
    "connection_lost \<notin> set post"
    using loop_check by blast
  have "count_list post connection_lost = 0"
    using p(2) by (simp add: count_list_0_iff)
  moreover have "count_list (trace (checkConnectionStatus (t_check clk) (t_disc clk) ?s1))
      connection_lost = count_list (trace ?s1) connection_lost +
        (if connected (metrics ?s1) \<and> timed_out ?s1 clk then 1 else 0)"
    by (simp add: checkConnectionStatus_def Let_def DATA_TIMEOUT_MS_def connection_lost_def
        timed_out_def)
  ultimately show ?thesis
    unfolding p(1) by (simp add: processSerialData_lost_count)
qed

lemma loop_idle_timed_out: "timed_out (loop [] clk s) = timed_out s"
  by (rule ext) (simp add: timed_out_def loop_last_update)

lemma idle_loops_disconnected:
  "\<not> connected (metrics s) \<Longrightarrow>
   \<not> connected (metrics (idle_loops clks s)) \<and>
   disconnect_time (metrics (idle_loops clks s)) = disconnect_time (metrics s) \<and>
   count_list (trace (idle_loops clks s)) connection_lost = count_list (trace s) connection_lost"
proof (induction clks arbitrary: s)
  case Nil
  then show ?case by simp
next
  case (Cons clk clks)
  have c: "\<not> connected (metrics (loop [] clk s))"
    "disconnect_time (metrics (loop [] clk s)) = disconnect_time (metrics s)"
    using Cons.prems by (simp_all add: loop_connected loop_disconnect_time)
  have "count_list (trace (loop [] clk s)) connection_lost = count_list (trace s) connection_lost"
    using Cons.prems by (simp add: loop_lost_count)
  with Cons.IH [OF c(1)] c(2) show ?case by simp
qed

lemma idle_loops_last_update:
  "last_update (metrics (idle_loops clks s)) = last_update (metrics s)"
  by (induction clks arbitrary: s) (simp_all add: loop_last_update)

lemma idle_loops_connected:
  "connected (metrics (idle_loops clks s)) =
     (connected (metrics s) \<and> (\<forall>clk \<in> set clks. \<not> timed_out s clk))"
  by (induction clks arbitrary: s) (auto simp: loop_connected loop_idle_timed_out)

lemma idle_loops_disconnect_time:
  "connected (metrics s) \<Longrightarrow>
   disconnect_time (metrics (idle_loops clks s)) =
     (case find (timed_out s) clks of
        None \<Rightarrow> disconnect_time (metrics s)
      | Some clk \<Rightarrow> t_disc clk)"
proof (induction clks arbitrary: s)
  case Nil
  then show ?case by simp
next
  case (Cons clk clks)
  show ?case
  proof (cases "timed_out s clk")
    case True
    then have "\<not> connected (metrics (loop [] clk s))"
      by (simp add: loop_connected)
    from idle_loops_disconnected [OF this, of clks] True Cons.prems show ?thesis
      by (simp add: loop_disconnect_time)
  next
    case False
    then have c: "connected (metrics (loop [] clk s))"
      using Cons.prems by (simp add: loop_connected)
    have d: "disconnect_time (metrics (loop [] clk s)) = disconnect_time (metrics s)"
      using False by (simp add: loop_disconnect_time)
    from Cons.IH [OF c] False show ?thesis
      unfolding d by (simp add: loop_idle_timed_out)
  qed
qed

lemma idle_loops_lost_count:
  "count_list (trace (idle_loops clks s)) connection_lost =
     count_list (trace s) connection_lost +
       (if connected (metrics s) \<and> (\<exists>clk \<in> set clks. timed_out s clk) then 1 else 0)"
proof (induction clks arbitrary: s)
  case Nil
  then show ?case by simp
next
  case (Cons clk clks)
  show ?case
  proof (cases "connected (metrics s) \<and> timed_out s clk")
    case True
    then have "\<not> connected (metrics (loop [] clk s))"
      by (simp add: loop_connected)
    from idle_loops_disconnected [OF this, of clks] True show ?thesis
      by (simp add: loop_lost_count)
  next
    case False
    then have e: "count_list (trace (loop [] clk s)) connection_lost
        = count_list (trace s) connection_lost"
      by (simp add: loop_lost_count)
    have c: "connected (metrics (loop [] clk s)) = connected (metrics s)"
      using False by (auto simp: loop_connected)
    from Cons.IH [of "loop [] clk s"] e c False show ?thesis
      by (auto simp: loop_idle_timed_out)
  qed
qed

lemma quiet_ext_refl [simp]: "quiet_ext s s"
  by (simp add: quiet_ext_def)

lemma quiet_ext_trans: "quiet_ext s s' \<Longrightarrow> quiet_ext s' s'' \<Longrightarrow> quiet_ext s s''"
  unfolding quiet_ext_def by fastforce

lemma quiet_ext_trace_eq: "trace s' = trace s \<Longrightarrow> quiet_ext s s'"
  by (simp add: quiet_ext_def)

lemma quiet_ext_println [simp]: "quiet_ext s (println msg s)"
  by (simp add: quiet_ext_def)

lemma parseMessage_quiet: "quiet_ext s (snd (parseMessage message s))"
  by (simp add: parseMessage_def Let_def quiet_ext_def split: option.split)

lemma deliver_quiet: "quiet_ext s (deliver now message s)"
proof -
  let ?e = "emit (Call_parseMessage message) s"
  have 1: "quiet_ext s ?e" by (simp add: quiet_ext_def)
  have 2: "quiet_ext ?e (snd (parseMessage message ?e))" by (rule parseMessage_quiet)
  have 3: "quiet_ext (snd (parseMessage message ?e)) (deliver now message s)"
    by (simp add: deliver_def Let_def split_beta quiet_ext_def)
  from 1 2 3 show ?thesis using quiet_ext_trans by blast
qed

lemma serial_byte_quiet: "quiet_ext s (serial_byte now c s)"
proof -
  let ?s1 = "s\<lparr>serialBuffer := (serialBuffer s)[bufferIndex s := CHR 0x00]\<rparr>"
  have "quiet_ext ?s1 (deliver now (c_str (serialBuffer ?s1)) ?s1)" by (rule deliver_quiet)
  then have "quiet_ext s ((deliver now (c_str (serialBuffer ?s1)) ?s1)\<lparr>bufferIndex := 0\<rparr>)"
    by (simp add: quiet_ext_def)
  then show ?thesis
    by (simp add: serial_byte_def Let_def quiet_ext_def)
qed

lemma processSerialData_quiet: "quiet_ext s (processSerialData input s)"
proof (induction input s rule: processSerialData.induct)
  case (1 s)
  show ?case by simp
next
  case (2 now c input s)
  from serial_byte_quiet [of s now c] 2 show ?case
    using quiet_ext_trans by auto
qed

lemma loop_metrics:
  "metrics (loop input clk s) =
     metrics (managePowerSaving (t_power clk)
       (checkConnectionStatus (t_check clk) (t_disc clk) (processSerialData input s)))"
  by (simp add: loop_def Let_def)

lemma loop_trace:
  "\<exists>post. trace (loop input clk s) =
     trace (managePowerSaving (t_power clk)
       (checkConnectionStatus (t_check clk) (t_disc clk) (processSerialData input s))) @ post"
  by (simp add: loop_def Let_def updateDisplay_def)

text \<open>
  Claim C8. From a state as after startup (disconnected, disconnect time 0, not in
  power-save mode) an iteration in which no message is decoded ends in power-save mode
  exactly when the clock read by the power manager exceeds 10000 ms; the link stays
  disconnected with disconnect time 0, so that this holds for the next iteration as well.
  Entering power-save mode switches the backlight off and reduces the CPU clock. No
  transition from connected to disconnected is involved.
\<close>

theorem power_save_after_boot:
  assumes "\<not> connected (metrics s)"
    and "disconnect_time (metrics s) = 0"
    and "\<not> power_save_mode (metrics s)"
    and "\<not> connected (metrics (processSerialData input s))"
  shows "power_save_mode (metrics (loop input clk s)) = (10000 < t_power clk) \<and>
    \<not> connected (metrics (loop input clk s)) \<and>
    disconnect_time (metrics (loop input clk s)) = 0 \<and>
    (10000 < t_power clk \<longrightarrow>
       (\<exists>pre post. trace (loop input clk s) = pre @
          [Println ''Entering power save mode...'', Set_Backlight 0, SetCpuFrequencyMhz 80,
           Println ''CPU frequency reduced to 80MHz'', Println ''Power save mode active'']
          @ post))"
proof -
  let ?s1 = "processSerialData input s"
  have c: "checkConnectionStatus (t_check clk) (t_disc clk) ?s1 = ?s1"
    using assms(4) by (simp add: checkConnectionStatus_def)
  have m: "metrics (loop input clk s) = metrics (managePowerSaving (t_power clk) ?s1)"
    by (simp add: loop_metrics c)
  have 1: "power_save_mode (metrics (loop input clk s)) = (10000 < t_power clk)"
    unfolding m managePowerSaving_mode using assms
    by (simp add: POWER_SAVE_DELAY_MS_def)
  have 2: "\<not> connected (metrics (loop input clk s))"
    "disconnect_time (metrics (loop input clk s)) = 0"
    unfolding m using assms by simp_all
  obtain post where p: "trace (loop input clk s) = trace (managePowerSaving (t_power clk) ?s1) @ post"
    using loop_trace [of input clk s] unfolding c by blast
  have 3: "\<exists>pre post. trace (loop input clk s) = pre @
          [Println ''Entering power save mode...'', Set_Backlight 0, SetCpuFrequencyMhz 80,
           Println ''CPU frequency reduced to 80MHz'', Println ''Power save mode active'']
          @ post" if "10000 < t_power clk"
  proof -
    have "trace (managePowerSaving (t_power clk) ?s1) = trace ?s1 @
          [Println ''Entering power save mode...'', Set_Backlight 0, SetCpuFrequencyMhz 80,
           Println ''CPU frequency reduced to 80MHz'', Println ''Power save mode active'']"
      using that assms by (simp add: managePowerSaving_trace POWER_SAVE_DELAY_MS_def)
    then show ?thesis unfolding p by (metis append.assoc)
  qed
  from 1 2 3 show ?thesis by blast
qed

theorem power_save_after_boot_witness:
  "\<not> connected (metrics firmware_init) \<and>
   disconnect_time (metrics firmware_init) = 0 \<and>
   \<not> power_save_mode (metrics firmware_init) \<and>
   power_save_mode (metrics (loop []
      \<lparr>t_check = 10001, t_disc = 10001, t_power = 10001, t_display = 10001\<rparr> firmware_init)) \<and>
   \<not> power_save_mode (metrics (loop []
      \<lparr>t_check = 10000, t_disc = 10000, t_power = 10000, t_display = 10000\<rparr> firmware_init))"
proof -
  have a: "\<not> connected (metrics firmware_init)" "disconnect_time (metrics firmware_init) = 0"
    "\<not> power_save_mode (metrics firmware_init)"
    by (simp_all add: firmware_init_def metrics_init_def)
  have b: "\<not> connected (metrics (processSerialData [] firmware_init))"
    using a(1) by simp
  show ?thesis
    using a
      power_save_after_boot [OF a b,
        of "\<lparr>t_check = 10001, t_disc = 10001, t_power = 10001, t_display = 10001\<rparr>"]
      power_save_after_boot [OF a b,
        of "\<lparr>t_check = 10000, t_disc = 10000, t_power = 10000, t_display = 10000\<rparr>"]
    by simp
qed

section \<open>The transport reader, line by line\<close>

lemma c_str_update:
  "i < length buf \<Longrightarrow> c_str (buf[i := CHR 0x00]) = c_str (take i buf)"
  by (simp add: c_str_def upd_conv_take_nth_drop takeWhile_tail)

lemma c_str_no_nul: "CHR 0x00 \<notin> set line \<Longrightarrow> c_str line = line"
  by (auto simp: c_str_def)

lemma parseMessage_cong:
  "metrics s = metrics s' \<Longrightarrow> trace s = trace s' \<Longrightarrow>
   fst (parseMessage message s) = fst (parseMessage message s') \<and>
   metrics (snd (parseMessage message s)) = metrics (snd (parseMessage message s')) \<and>
   trace (snd (parseMessage message s)) = trace (snd (parseMessage message s'))"
  by (simp add: parseMessage_def Let_def println_def split: option.split)

lemma deliver_cong:
  assumes "metrics s = metrics s'" "trace s = trace s'"
  shows "metrics (deliver now message s) = metrics (deliver now message s') \<and>
         trace (deliver now message s) = trace (deliver now message s')"
proof -
  let ?e = "emit (Call_parseMessage message) s" and ?e' = "emit (Call_parseMessage message) s'"
  have "metrics ?e = metrics ?e'" "trace ?e = trace ?e'" using assms by simp_all
  from parseMessage_cong [OF this, of message] show ?thesis
    by (simp add: deliver_def Let_def split_beta)
qed

lemma buffer_ok_serial_byte: "buffer_ok s \<Longrightarrow> buffer_ok (serial_byte now c s)"
  by (auto simp: buffer_ok_def serial_byte_def Let_def SERIAL_BUFFER_SIZE_def)

lemma buffer_ok_processSerialData: "buffer_ok s \<Longrightarrow> buffer_ok (processSerialData input s)"
  by (induction input s rule: processSerialData.induct) (simp_all add: buffer_ok_serial_byte)

lemma serial_byte_same_view:
  assumes "same_view s s'" "buffer_ok s" "buffer_ok s'"
  shows "same_view (serial_byte now c s) (serial_byte now c s')"
proof -
  let ?i = "bufferIndex s"
  have e: "metrics s = metrics s'" "trace s = trace s'" "lastUpdate s = lastUpdate s'"
    "bufferIndex s' = ?i" "take ?i (serialBuffer s) = take ?i (serialBuffer s')"
    using assms(1) by (auto simp: same_view_def)
  have l: "?i < length (serialBuffer s)" "?i < length (serialBuffer s')"
    using assms(2,3) e(4) by (simp_all add: buffer_ok_def)
  show ?thesis
  proof (cases "is_terminator c")
    case True
    show ?thesis
    proof (cases "?i > 0")
      case False
      with True assms(1) e(4) show ?thesis by (simp add: serial_byte_def)
    next
      case pos: True
      let ?s1 = "s\<lparr>serialBuffer := (serialBuffer s)[?i := CHR 0x00]\<rparr>"
      let ?s1' = "s'\<lparr>serialBuffer := (serialBuffer s')[?i := CHR 0x00]\<rparr>"
      have m: "c_str (serialBuffer ?s1) = c_str (serialBuffer ?s1')"
        using l e(5) by (simp add: c_str_update)
      have "metrics ?s1 = metrics ?s1'" "trace ?s1 = trace ?s1'" using e by simp_all
      from deliver_cong [OF this, of now "c_str (serialBuffer ?s1)"]
      show ?thesis
        using True pos e(3,4) m by (simp add: serial_byte_def Let_def same_view_def)
    qed
  next
    case False
    show ?thesis
    proof (cases "?i < SERIAL_BUFFER_SIZE - 1")
      case True
      have "take (Suc ?i) ((serialBuffer s)[?i := c]) = take (Suc ?i) ((serialBuffer s')[?i := c])"
        using l e(5) by (simp add: take_Suc_conv_app_nth)
      with False True e show ?thesis
        by (simp add: serial_byte_def same_view_def)
    next
      case full: False
      with False e show ?thesis
        by (simp add: serial_byte_def same_view_def)
    qed
  qed
qed

lemma processSerialData_same_view:
  "same_view s s' \<Longrightarrow> buffer_ok s \<Longrightarrow> buffer_ok s' \<Longrightarrow>
   same_view (processSerialData input s) (processSerialData input s')"
proof (induction input arbitrary: s s')
  case Nil
  then show ?case by simp
next
  case (Cons p input)
  obtain now c where p: "p = (now, c)" by (cases p)
  show ?case
    unfolding p processSerialData.simps
    by (rule Cons.IH [OF serial_byte_same_view [OF Cons.prems]
          buffer_ok_serial_byte [OF Cons.prems(2)] buffer_ok_serial_byte [OF Cons.prems(3)]])
qed

lemma processSerialData_append:
  "processSerialData (xs @ ys) s = processSerialData ys (processSerialData xs s)"
  by (induction xs s rule: processSerialData.induct) simp_all

lemma fill_view:
  assumes "\<forall>p \<in> set input. \<not> is_terminator (snd p)"
    and "bufferIndex s + length input < SERIAL_BUFFER_SIZE"
    and "length (serialBuffer s) = SERIAL_BUFFER_SIZE"
  shows "metrics (processSerialData input s) = metrics s \<and>
    trace (processSerialData input s) = trace s \<and>
    lastUpdate (processSerialData input s) = lastUpdate s \<and>
    bufferIndex (processSerialData input s) = bufferIndex s + length input \<and>
    length (serialBuffer (processSerialData input s)) = SERIAL_BUFFER_SIZE \<and>
    take (bufferIndex s + length input) (serialBuffer (processSerialData input s)) =
      take (bufferIndex s) (serialBuffer s) @ map snd input"
  using assms
proof (induction input arbitrary: s)
  case Nil
  then show ?case by simp
next
  case (Cons p input)
  obtain now c where p: "p = (now, c)" by (cases p)
  let ?s = "s\<lparr>serialBuffer := (serialBuffer s)[bufferIndex s := c],
               bufferIndex := bufferIndex s + 1\<rparr>"
  have nt: "\<not> is_terminator c" using Cons.prems(1) p by simp
  have lt: "bufferIndex s < SERIAL_BUFFER_SIZE - 1" using Cons.prems(2) by simp
  have sb: "serial_byte now c s = ?s"
    using nt lt by (simp add: serial_byte_def)
  have 1: "\<forall>p \<in> set input. \<not> is_terminator (snd p)" using Cons.prems(1) by simp
  have 2: "bufferIndex ?s + length input < SERIAL_BUFFER_SIZE" using Cons.prems(2) by simp
  have 3: "length (serialBuffer ?s) = SERIAL_BUFFER_SIZE" using Cons.prems(3) by simp
  have t: "take (bufferIndex ?s) (serialBuffer ?s) = take (bufferIndex s) (serialBuffer s) @ [c]"
    using lt Cons.prems(3) by (simp add: take_Suc_conv_app_nth)
  from Cons.IH [OF 1 2 3] show ?case
    unfolding p processSerialData.simps sb t by simp
qed

lemma overflow_step:
  "\<not> is_terminator c \<Longrightarrow> bufferIndex s = SERIAL_BUFFER_SIZE - 1 \<Longrightarrow>
   serial_byte now c s = println ''Error: Buffer overflow'' (s\<lparr>bufferIndex := 0\<rparr>)"
  by (simp add: serial_byte_def)

lemma overflow_view:
  assumes "buffer_ok s"
    and "bufferIndex s + length over = SERIAL_BUFFER_SIZE"
    and "\<forall>p \<in> set over. \<not> is_terminator (snd p)"
  shows "same_view (processSerialData (over @ rest) s)
           (processSerialData rest (println ''Error: Buffer overflow'' (s\<lparr>bufferIndex := 0\<rparr>)))"
proof -
  have ne: "over \<noteq> []" using assms(1,2) by (auto simp: buffer_ok_def)
  obtain now c where o: "over = butlast over @ [(now, c)]"
    using ne by (metis append_butlast_last_id surj_pair)
  let ?init = "butlast over"
  have 1: "\<forall>p \<in> set ?init. \<not> is_terminator (snd p)"
    using assms(3) by (meson in_set_butlastD)
  have nt: "\<not> is_terminator c"
    using assms(3) o by (metis in_set_conv_decomp snd_conv)
  obtain n where n: "length over = Suc n" using ne by (cases over) auto
  have 2: "bufferIndex s + length ?init < SERIAL_BUFFER_SIZE"
    using assms(2) n by simp
  have 3: "length (serialBuffer s) = SERIAL_BUFFER_SIZE"
    using assms(1) by (simp add: buffer_ok_def)
  let ?s1 = "processSerialData ?init s"
  note f = fill_view [OF 1 2 3]
  have i: "bufferIndex ?s1 = SERIAL_BUFFER_SIZE - 1"
    using f assms(2) n by simp
  have "processSerialData over s = serial_byte now c ?s1"
    by (subst o) (simp add: processSerialData_append)
  then have e: "processSerialData over s = println ''Error: Buffer overflow'' (?s1\<lparr>bufferIndex := 0\<rparr>)"
    using overflow_step [OF nt i] by simp
  let ?a = "println ''Error: Buffer overflow'' (?s1\<lparr>bufferIndex := 0\<rparr>)"
  let ?b = "println ''Error: Buffer overflow'' (s\<lparr>bufferIndex := 0\<rparr>)"
  have v: "same_view ?a ?b" using f by (simp add: same_view_def)
  have oka: "buffer_ok ?a" using f by (simp add: buffer_ok_def SERIAL_BUFFER_SIZE_def)
  have okb: "buffer_ok ?b" using 3 by (simp add: buffer_ok_def SERIAL_BUFFER_SIZE_def)
  show ?thesis
    unfolding processSerialData_append e
    by (rule processSerialData_same_view [OF v oka okb])
qed

lemma line_delivered:
  assumes "buffer_ok s" and "bufferIndex s = 0"
    and "input \<noteq> []" and "length input < SERIAL_BUFFER_SIZE"
    and "\<forall>p \<in> set input. \<not> is_terminator (snd p)"
    and "CHR 0x00 \<notin> set (map snd input)"
    and "is_terminator c"
  shows "metrics (processSerialData (input @ [(now, c)]) s) = metrics (deliver now (map snd input) s) \<and>
    trace (processSerialData (input @ [(now, c)]) s) = trace (deliver now (map snd input) s) \<and>
    bufferIndex (processSerialData (input @ [(now, c)]) s) = 0"
proof -
  have 2: "bufferIndex s + length input < SERIAL_BUFFER_SIZE" using assms(2,4) by simp
  have 3: "length (serialBuffer s) = SERIAL_BUFFER_SIZE"
    using assms(1) by (simp add: buffer_ok_def)
  let ?s1 = "processSerialData input s"
  note f = fill_view [OF assms(5) 2 3]
  have i: "bufferIndex ?s1 = length input" "0 < bufferIndex ?s1"
    using f assms(2,3) by simp_all
  have t: "take (length input) (serialBuffer ?s1) = map snd input"
    using f assms(2) by simp
  let ?s2 = "?s1\<lparr>serialBuffer := (serialBuffer ?s1)[bufferIndex ?s1 := CHR 0x00]\<rparr>"
  have m: "c_str (serialBuffer ?s2) = map snd input"
    using f assms(4) i(1) t c_str_no_nul [OF assms(6)] by (simp add: c_str_update)
  have sb: "serial_byte now c ?s1 = (deliver now (map snd input) ?s2)\<lparr>bufferIndex := 0\<rparr>"
    using assms(7) i(2) m by (simp add: serial_byte_def Let_def)
  have "metrics ?s2 = metrics s" "trace ?s2 = trace s" using f by simp_all
  from deliver_cong [OF this, of now "map snd input"] show ?thesis
    unfolding processSerialData_append processSerialData.simps sb by simp
qed

section \<open>Buffer overflow, and reconnection in power-save mode\<close>

lemma deliver_trace:
  "\<exists>post. trace (deliver now message s) = trace s @ Call_parseMessage message # post"
proof -
  let ?e = "emit (Call_parseMessage message) s"
  obtain pre where p: "trace (snd (parseMessage message ?e)) = trace ?e @ pre"
    using parseMessage_quiet [of ?e message] unfolding quiet_ext_def by blast
  show ?thesis
    by (simp add: deliver_def Let_def split_beta p)
qed

lemma deliver_accepted:
  "fst (parseMessage message (emit (Call_parseMessage message) s)) \<Longrightarrow>
   connected (metrics (deliver now message s)) \<and>
   last_update (metrics (deliver now message s)) = now"
  by (simp add: deliver_def Let_def split_beta)

lemma sample_line_accepted:
  "fst (parseMessage ''CPU:1,RAM:2,TEMP:3,CHK:1'' s) \<and>
   cpu_usage (metrics (snd (parseMessage ''CPU:1,RAM:2,TEMP:3,CHK:1'' s))) = Flt 1"
proof -
  let ?l = "''CPU:1,RAM:2,TEMP:3,CHK:1''"
  have v: "validateChecksum ?l" by code_simp
  have k: "strstr ?l ''CPU:'' = Some ?l"
    "strstr ?l ''RAM:'' = Some ''RAM:2,TEMP:3,CHK:1''"
    "strstr ?l ''TEMP:'' = Some ''TEMP:3,CHK:1''"
    by code_simp+
  have a: "float_of_double (atof (drop 4 ?l)) = Flt 1"
    "float_of_double (atof (drop 4 ''RAM:2,TEMP:3,CHK:1'')) = Flt 2"
    "float_of_double (atof (drop 5 ''TEMP:3,CHK:1'')) = Flt 3"
    by code_simp+
  show ?thesis
    unfolding parseMessage_required_present [OF v k] a
    by (simp add: Let_def out_of_range_def)
qed

lemma sample_line_bytes:
  "map (Pair t) ''CPU:1,RAM:2,TEMP:3,CHK:1'' \<noteq> []"
  "length (map (Pair t) ''CPU:1,RAM:2,TEMP:3,CHK:1'') < SERIAL_BUFFER_SIZE"
  "\<forall>p \<in> set (map (Pair t) ''CPU:1,RAM:2,TEMP:3,CHK:1''). \<not> is_terminator (snd p)"
  "CHR 0x00 \<notin> set (map snd (map (Pair t) ''CPU:1,RAM:2,TEMP:3,CHK:1''))"
  "is_terminator (CHR 0x0A)"
  "map snd (map (Pair t) ''CPU:1,RAM:2,TEMP:3,CHK:1'') = ''CPU:1,RAM:2,TEMP:3,CHK:1''"
  by (simp_all add: SERIAL_BUFFER_SIZE_def is_terminator_def)

lemma sample_line_delivered:
  assumes "buffer_ok s" and "bufferIndex s = 0"
  shows "connected (metrics (processSerialData
           (map (Pair t) ''CPU:1,RAM:2,TEMP:3,CHK:1'' @ [(t, CHR 0x0A)]) s)) \<and>
    last_update (metrics (processSerialData
           (map (Pair t) ''CPU:1,RAM:2,TEMP:3,CHK:1'' @ [(t, CHR 0x0A)]) s)) = t \<and>
    Call_parseMessage ''CPU:1,RAM:2,TEMP:3,CHK:1'' \<in> set (trace (processSerialData
           (map (Pair t) ''CPU:1,RAM:2,TEMP:3,CHK:1'' @ [(t, CHR 0x0A)]) s))"
proof -
  let ?l = "''CPU:1,RAM:2,TEMP:3,CHK:1''"
  note d = line_delivered [OF assms sample_line_bytes(1-5), of t t]
  have a: "connected (metrics (deliver t ?l s)) \<and> last_update (metrics (deliver t ?l s)) = t"
    by (rule deliver_accepted) (rule sample_line_accepted [THEN conjunct1])
  obtain post where p: "trace (deliver t ?l s) = trace s @ Call_parseMessage ?l # post"
    using deliver_trace by blast
  show ?thesis
    using d a unfolding sample_line_bytes(6) p by simp
qed

text \<open>
  Claim C2 as stated does not hold: a line of 128 bytes \<^verbatim>\<open>x\<close> followed, before its
  terminator, by \<^verbatim>\<open>CPU:1,RAM:2,TEMP:3,CHK:1\<close>. The bytes after the 128th are given to
  the decoder, which accepts them: the link becomes connected.
\<close>

theorem overlong_line_tail_decoded_counterexample:
  "Call_parseMessage ''CPU:1,RAM:2,TEMP:3,CHK:1'' \<in> set (trace (processSerialData
      (map (Pair 7) (replicate 128 (CHR ''x'')) @
       map (Pair 7) ''CPU:1,RAM:2,TEMP:3,CHK:1'' @ [(7, CHR 0x0A)]) firmware_init)) \<and>
   connected (metrics (processSerialData
      (map (Pair 7) (replicate 128 (CHR ''x'')) @
       map (Pair 7) ''CPU:1,RAM:2,TEMP:3,CHK:1'' @ [(7, CHR 0x0A)]) firmware_init))"
proof -
  let ?over = "map (Pair (7 :: 32 word)) (replicate 128 (CHR ''x''))"
  let ?rest = "map (Pair (7 :: 32 word)) ''CPU:1,RAM:2,TEMP:3,CHK:1'' @ [(7, CHR 0x0A)]"
  let ?b = "println ''Error: Buffer overflow'' (firmware_init\<lparr>bufferIndex := 0\<rparr>)"
  have ok: "buffer_ok firmware_init"
    by (simp add: buffer_ok_def firmware_init_def SERIAL_BUFFER_SIZE_def)
  have len: "bufferIndex firmware_init + length ?over = SERIAL_BUFFER_SIZE"
    by (simp add: firmware_init_def SERIAL_BUFFER_SIZE_def)
  have nt: "\<forall>p \<in> set ?over. \<not> is_terminator (snd p)"
    by (simp add: is_terminator_def)
  have v: "same_view (processSerialData (?over @ ?rest) firmware_init) (processSerialData ?rest ?b)"
    by (rule overflow_view [OF ok len nt])
  have okb: "buffer_ok ?b" "bufferIndex ?b = 0"
    using ok by (simp_all add: buffer_ok_def SERIAL_BUFFER_SIZE_def)
  from sample_line_delivered [OF okb, of 7] v show ?thesis
    by (simp add: same_view_def)
qed

text \<open>
  Claim C2, amended. When the bytes of a line, none of them a terminator, fill the buffer
  up to its capacity of 128, the 127 buffered bytes and the 128th byte are discarded
  without being given to the decoder, the overflow is reported once, the record is
  unchanged and the buffer is reset. Reading continues from there as from the start of a
  line: whatever follows is handled as it would be after the report on an empty buffer,
  so that the remaining bytes of an over-long line form a line of their own.
\<close>

theorem overflow_discards_buffered_bytes:
  assumes "buffer_ok s"
    and "bufferIndex s + length over = SERIAL_BUFFER_SIZE"
    and "\<forall>p \<in> set over. \<not> is_terminator (snd p)"
  shows "metrics (processSerialData over s) = metrics s \<and>
    trace (processSerialData over s) = trace s @ [Println ''Error: Buffer overflow''] \<and>
    bufferIndex (processSerialData over s) = 0 \<and>
    same_view (processSerialData (over @ rest) s)
      (processSerialData rest (println ''Error: Buffer overflow'' (s\<lparr>bufferIndex := 0\<rparr>)))"
proof -
  have "same_view (processSerialData (over @ []) s)
      (processSerialData [] (println ''Error: Buffer overflow'' (s\<lparr>bufferIndex := 0\<rparr>)))"
    by (rule overflow_view [OF assms])
  then have 1: "metrics (processSerialData over s) = metrics s \<and>
    trace (processSerialData over s) = trace s @ [Println ''Error: Buffer overflow''] \<and>
    bufferIndex (processSerialData over s) = 0"
    by (simp add: same_view_def)
  with overflow_view [OF assms, of rest] show ?thesis by blast
qed

theorem overflow_discards_buffered_bytes_witness:
  "buffer_ok firmware_init \<and>
   bufferIndex firmware_init + length (map (Pair (7 :: 32 word)) (replicate 128 (CHR ''x'')))
     = SERIAL_BUFFER_SIZE \<and>
   metrics (processSerialData (map (Pair 7) (replicate 128 (CHR ''x''))) firmware_init)
     = metrics firmware_init \<and>
   trace (processSerialData (map (Pair 7) (replicate 128 (CHR ''x''))) firmware_init)
     = [Println ''Error: Buffer overflow''] \<and>
   bufferIndex (processSerialData (map (Pair 7) (replicate 128 (CHR ''x''))) firmware_init) = 0"
proof -
  let ?over = "map (Pair (7 :: 32 word)) (replicate 128 (CHR ''x''))"
  have ok: "buffer_ok firmware_init"
    by (simp add: buffer_ok_def firmware_init_def SERIAL_BUFFER_SIZE_def)
  have len: "bufferIndex firmware_init + length ?over = SERIAL_BUFFER_SIZE"
    by (simp add: firmware_init_def SERIAL_BUFFER_SIZE_def)
  have nt: "\<forall>p \<in> set ?over. \<not> is_terminator (snd p)"
    by (simp add: is_terminator_def)
  have t: "trace firmware_init = []" by (simp add: firmware_init_def)
  show ?thesis
    using ok len overflow_discards_buffered_bytes [OF ok len nt, of "[]"] t by simp
qed

text \<open>
  Claim C7. After \<^verbatim>\<open>managePowerSaving\<close> the firmware is in power-save mode exactly when
  the link is disconnected and either it was in power-save mode already or the clock
  minus the disconnect time (a 32-bit difference) exceeds 10000 ms; a connected link
  never leaves it in power-save mode. When a valid message arrives in an iteration that
  starts in power-save mode (the serial processing leaves the link connected, and the
  liveness check of the same iteration, reading the clock within 5000 ms of the stamp,
  keeps it so), the iteration ends out of power-save mode: the backlight is restored to 5
  and the CPU clock to 160 MHz after the serial processing and before any request to the
  display, and the iteration ends with the short delay.
\<close>

theorem power_manager_timing:
  "power_save_mode (metrics (managePowerSaving now s)) =
     (\<not> connected (metrics s) \<and>
      (power_save_mode (metrics s) \<or> 10000 < now - disconnect_time (metrics s))) \<and>
   (power_save_mode (metrics s) \<and> connected (metrics (processSerialData input s)) \<and>
    \<not> 5000 < t_check clk - last_update (metrics (processSerialData input s)) \<longrightarrow>
      \<not> power_save_mode (metrics (loop input clk s)) \<and>
      connected (metrics (loop input clk s)) \<and>
      (\<exists>pre post. trace (loop input clk s) = trace s @ pre @
          [Println ''Exiting power save mode...'', Set_Backlight 5, SetCpuFrequencyMhz 160,
           Println ''CPU frequency restored to 160MHz'', Println ''Power save mode disabled'']
          @ post @ [Timer_Loop, Delay 5]
        \<and> (\<forall>e \<in> set pre. \<not> is_ui_update e)))"
proof -
  let ?s1 = "processSerialData input s"
  have a: "power_save_mode (metrics (managePowerSaving now s)) =
     (\<not> connected (metrics s) \<and>
      (power_save_mode (metrics s) \<or> 10000 < now - disconnect_time (metrics s)))"
    by (simp add: managePowerSaving_mode POWER_SAVE_DELAY_MS_def)
  have b: "\<not> power_save_mode (metrics (loop input clk s)) \<and>
      connected (metrics (loop input clk s)) \<and>
      (\<exists>pre post. trace (loop input clk s) = trace s @ pre @
          [Println ''Exiting power save mode...'', Set_Backlight 5, SetCpuFrequencyMhz 160,
           Println ''CPU frequency restored to 160MHz'', Println ''Power save mode disabled'']
          @ post @ [Timer_Loop, Delay 5]
        \<and> (\<forall>e \<in> set pre. \<not> is_ui_update e))"
    if h: "power_save_mode (metrics s)" "connected (metrics ?s1)"
      "\<not> 5000 < t_check clk - last_update (metrics ?s1)"
  proof -
    have c: "checkConnectionStatus (t_check clk) (t_disc clk) ?s1 = ?s1"
      using h(3) by (simp add: checkConnectionStatus_def Let_def DATA_TIMEOUT_MS_def)
    have m: "metrics (loop input clk s) = metrics (managePowerSaving (t_power clk) ?s1)"
      by (simp add: loop_metrics c)
    have 1: "\<not> power_save_mode (metrics (loop input clk s))" "connected (metrics (loop input clk s))"
      unfolding m managePowerSaving_mode using h(2) by simp_all
    obtain pre where p: "trace ?s1 = trace s @ pre" "\<forall>e \<in> set pre. \<not> is_ui_update e"
      using processSerialData_quiet [of s input] unfolding quiet_ext_def by blast
    have q: "power_save_mode (metrics ?s1)" using h(1) by simp
    let ?s3 = "managePowerSaving (t_power clk) ?s1"
    have t3: "trace ?s3 = trace s @ pre @
          [Println ''Exiting power save mode...'', Set_Backlight 5, SetCpuFrequencyMhz 160,
           Println ''CPU frequency restored to 160MHz'', Println ''Power save mode disabled'']"
      using h(2) q by (simp add: managePowerSaving_trace p(1))
    have n: "\<not> power_save_mode (metrics ?s3)"
      unfolding managePowerSaving_mode using h(2) by simp
    obtain post where u: "trace (updateDisplay (t_display clk) ?s3) = trace ?s3 @ post"
      using updateDisplay_trace by blast
    have "trace (loop input clk s) = trace s @ pre @
          [Println ''Exiting power save mode...'', Set_Backlight 5, SetCpuFrequencyMhz 160,
           Println ''CPU frequency restored to 160MHz'', Println ''Power save mode disabled'']
          @ post @ [Timer_Loop, Delay 5]"
      using n by (simp add: loop_def Let_def c u t3)
    with 1 p(2) show ?thesis by blast
  qed
  from a b show ?thesis by blast
qed

theorem power_manager_timing_witness:
  "power_save_mode (metrics (firmware_init\<lparr>metrics := metrics_init\<lparr>power_save_mode := True\<rparr>\<rparr>)) \<and>
   connected (metrics (processSerialData
      (map (Pair 20000) ''CPU:1,RAM:2,TEMP:3,CHK:1'' @ [(20000, CHR 0x0A)])
      (firmware_init\<lparr>metrics := metrics_init\<lparr>power_save_mode := True\<rparr>\<rparr>))) \<and>
   \<not> power_save_mode (metrics (loop
      (map (Pair 20000) ''CPU:1,RAM:2,TEMP:3,CHK:1'' @ [(20000, CHR 0x0A)])
      \<lparr>t_check = 20003, t_disc = 20003, t_power = 20003, t_display = 20003\<rparr>
      (firmware_init\<lparr>metrics := metrics_init\<lparr>power_save_mode := True\<rparr>\<rparr>))) \<and>
   power_save_mode (metrics (managePowerSaving 15002
      (firmware_init\<lparr>metrics := metrics_init\<lparr>disconnect_time := 5001\<rparr>\<rparr>)))"
proof -
  let ?s = "firmware_init\<lparr>metrics := metrics_init\<lparr>power_save_mode := True\<rparr>\<rparr>"
  let ?input = "map (Pair (20000 :: 32 word)) ''CPU:1,RAM:2,TEMP:3,CHK:1'' @ [(20000, CHR 0x0A)]"
  let ?clk = "\<lparr>t_check = 20003, t_disc = 20003, t_power = 20003, t_display = 20003\<rparr>"
  have ok: "buffer_ok ?s" "bufferIndex ?s = 0"
    by (simp_all add: buffer_ok_def firmware_init_def SERIAL_BUFFER_SIZE_def)
  note d = sample_line_delivered [OF ok, of 20000]
  have a: "power_save_mode (metrics ?s)" by simp
  have b: "connected (metrics (processSerialData ?input ?s))" using d by blast
  have c: "\<not> 5000 < t_check ?clk - last_update (metrics (processSerialData ?input ?s))"
    using d by simp
  have e: "power_save_mode (metrics (managePowerSaving 15002
      (firmware_init\<lparr>metrics := metrics_init\<lparr>disconnect_time := 5001\<rparr>\<rparr>)))"
    using power_manager_timing [of 15002
        "firmware_init\<lparr>metrics := metrics_init\<lparr>disconnect_time := 5001\<rparr>\<rparr>" "[]" ?clk]
    by (simp add: metrics_init_def)
  show ?thesis
    using a b c e power_manager_timing [of 0 ?s ?input ?clk] by blast
qed

section \<open>The liveness monitor over successive iterations\<close>

lemma deliver_last_update:
  "last_update (metrics (deliver now message s)) =
     (if fst (parseMessage message (emit (Call_parseMessage message) s)) then now
      else last_update (metrics s))"
  by (simp add: deliver_def Let_def split_beta)

text \<open>
  Claim C6. The link starts disconnected. Only a line that the decoder accepts stamps the
  time of the last update and marks the link connected. \<^verbatim>\<open>checkConnectionStatus\<close> takes
  the link from connected to disconnected exactly when it is connected and the clock
  minus the time of the last update (a 32-bit difference) exceeds 5000 ms; it then sets
  the disconnect time to the reading of the clock taken at that moment and reports the
  loss; in every other case it changes nothing. An iteration of the main loop ends
  connected exactly when the link is connected after the bytes of this iteration were
  read and the check does not find the last update too old; otherwise, if the link was
  connected after the read, the disconnect time is the clock reading of this check and
  the loss is reported once, and if not, the disconnect time is unchanged and nothing is
  reported. Over iterations without incoming bytes, from a connected link, the link ends
  connected exactly when no check finds the last update too old; if one does, the loss
  is reported exactly once and the disconnect time is the clock reading of the first such
  check; from a disconnected link nothing is reported and nothing changes.
\<close>

theorem liveness_monitor:
  "\<not> connected (metrics firmware_init) \<and>
   last_update (metrics (deliver now message s)) =
     (if fst (parseMessage message (emit (Call_parseMessage message) s)) then now
      else last_update (metrics s)) \<and>
   connected (metrics (deliver now message s)) =
     (connected (metrics s) \<or> fst (parseMessage message (emit (Call_parseMessage message) s))) \<and>
   (connected (metrics s) \<and> 5000 < t1 - last_update (metrics s) \<longrightarrow>
      checkConnectionStatus t1 t2 s =
        println ''Connection lost - no data received''
          (s\<lparr>metrics := (metrics s)\<lparr>connected := False, disconnect_time := t2\<rparr>\<rparr>)) \<and>
   (\<not> (connected (metrics s) \<and> 5000 < t1 - last_update (metrics s)) \<longrightarrow>
      checkConnectionStatus t1 t2 s = s) \<and>
   (let s1 = processSerialData input s; s' = loop input clk s
    in connected (metrics s') = (connected (metrics s1) \<and> \<not> timed_out s1 clk) \<and>
       last_update (metrics s') = last_update (metrics s1) \<and>
       disconnect_time (metrics s') =
         (if connected (metrics s1) \<and> timed_out s1 clk then t_disc clk
          else disconnect_time (metrics s)) \<and>
       count_list (trace s') connection_lost =
         count_list (trace s) connection_lost +
           (if connected (metrics s1) \<and> timed_out s1 clk then 1 else 0)) \<and>
   (let s' = idle_loops clks s
    in connected (metrics s') =
         (connected (metrics s) \<and> (\<forall>clk \<in> set clks. \<not> timed_out s clk)) \<and>
       last_update (metrics s') = last_update (metrics s) \<and>
       disconnect_time (metrics s') =
         (if connected (metrics s)
          then (case find (timed_out s) clks of
                  None \<Rightarrow> disconnect_time (metrics s)
                | Some clk \<Rightarrow> t_disc clk)
          else disconnect_time (metrics s)) \<and>
       count_list (trace s') connection_lost =
         count_list (trace s) connection_lost +
           (if connected (metrics s) \<and> (\<exists>clk \<in> set clks. timed_out s clk) then 1 else 0))"
proof -
  have i: "\<not> connected (metrics firmware_init)"
    by (simp add: firmware_init_def metrics_init_def)
  have f: "connected (metrics s) \<and> 5000 < t1 - last_update (metrics s) \<longrightarrow>
      checkConnectionStatus t1 t2 s =
        println ''Connection lost - no data received''
          (s\<lparr>metrics := (metrics s)\<lparr>connected := False, disconnect_time := t2\<rparr>\<rparr>)"
    using checkConnectionStatus_fires [of s t1 t2] unfolding DATA_TIMEOUT_MS_def by blast
  have g: "\<not> (connected (metrics s) \<and> 5000 < t1 - last_update (metrics s)) \<longrightarrow>
      checkConnectionStatus t1 t2 s = s"
    using checkConnectionStatus_idle [of s t1 t2] unfolding DATA_TIMEOUT_MS_def by blast
  have d: "disconnect_time (metrics (idle_loops clks s)) =
         (if connected (metrics s)
          then (case find (timed_out s) clks of
                  None \<Rightarrow> disconnect_time (metrics s)
                | Some clk \<Rightarrow> t_disc clk)
          else disconnect_time (metrics s))"
    using idle_loops_disconnect_time [of s clks] idle_loops_disconnected [of s clks] by simp
  show ?thesis
    unfolding Let_def
    apply (intro conjI)
               apply (rule i)
              apply (rule deliver_last_update)
             apply (rule deliver_connected)
            apply (rule f)
           apply (rule g)
          apply (rule loop_connected)
         apply (rule loop_last_update)
        apply (rule loop_disconnect_time)
       apply (rule loop_lost_count)
      apply (rule idle_loops_connected)
     apply (rule idle_loops_last_update)
    apply (rule d)
    apply (rule idle_loops_lost_count)
    done
qed

theorem liveness_monitor_witness:
  "(let s1 = loop (map (Pair 1000) ''CPU:1,RAM:2,TEMP:3,CHK:1'' @ [(1000, CHR 0x0A)])
               \<lparr>t_check = 1003, t_disc = 1003, t_power = 1003, t_display = 1003\<rparr> firmware_init;
        s2 = idle_loops
               [\<lparr>t_check = 3000, t_disc = 3000, t_power = 3000, t_display = 3000\<rparr>,
                \<lparr>t_check = 6001, t_disc = 6002, t_power = 6002, t_display = 6002\<rparr>,
                \<lparr>t_check = 6106, t_disc = 6106, t_power = 6106, t_display = 6106\<rparr>,
                \<lparr>t_check = 20000, t_disc = 20000, t_power = 20000, t_display = 20000\<rparr>] s1;
        s3 = idle_loops
               [\<lparr>t_check = 3000, t_disc = 3000, t_power = 3000, t_display = 3000\<rparr>,
                \<lparr>t_check = 6000, t_disc = 6000, t_power = 6000, t_display = 6000\<rparr>] s1
    in \<not> connected (metrics firmware_init) \<and>
       connected (metrics s1) \<and> last_update (metrics s1) = 1000 \<and>
       disconnect_time (metrics s1) = 0 \<and>
       count_list (trace s1) connection_lost = 0 \<and>
       \<not> connected (metrics s2) \<and> disconnect_time (metrics s2) = 6002 \<and>
       count_list (trace s2) connection_lost = 1 \<and>
       connected (metrics s3) \<and> disconnect_time (metrics s3) = 0 \<and>
       count_list (trace s3) connection_lost = 0 \<and>
       checkConnectionStatus 6001 6002 s1 =
         println ''Connection lost - no data received''
           (s1\<lparr>metrics := (metrics s1)\<lparr>connected := False, disconnect_time := 6002\<rparr>\<rparr>) \<and>
       checkConnectionStatus 6000 6000 s1 = s1 \<and>
       checkConnectionStatus 6001 6002 s2 = s2)"
proof -
  let ?input = "map (Pair (1000 :: 32 word)) ''CPU:1,RAM:2,TEMP:3,CHK:1'' @ [(1000, CHR 0x0A)]"
  let ?clk = "\<lparr>t_check = 1003, t_disc = 1003, t_power = 1003, t_display = 1003\<rparr>"
  let ?s1 = "loop ?input ?clk firmware_init"
  let ?c1 = "\<lparr>t_check = 3000, t_disc = 3000, t_power = 3000, t_display = 3000\<rparr>"
  let ?c2 = "\<lparr>t_check = 6001, t_disc = 6002, t_power = 6002, t_display = 6002\<rparr>"
  let ?c3 = "\<lparr>t_check = 6106, t_disc = 6106, t_power = 6106, t_display = 6106\<rparr>"
  let ?c4 = "\<lparr>t_check = 20000, t_disc = 20000, t_power = 20000, t_display = 20000\<rparr>"
  let ?c5 = "\<lparr>t_check = 6000, t_disc = 6000, t_power = 6000, t_display = 6000\<rparr>"
  let ?s2 = "idle_loops [?c1, ?c2, ?c3, ?c4] ?s1"
  let ?s3 = "idle_loops [?c1, ?c5] ?s1"
  have ok: "buffer_ok firmware_init" "bufferIndex firmware_init = 0"
    by (simp_all add: buffer_ok_def firmware_init_def SERIAL_BUFFER_SIZE_def)
  note r = sample_line_delivered [OF ok, of 1000]
  have r1: "connected (metrics (processSerialData ?input firmware_init))"
    using r by blast
  have r2: "last_update (metrics (processSerialData ?input firmware_init)) = 1000"
    using r by blast
  have t0: "\<not> timed_out (processSerialData ?input firmware_init) ?clk"
    unfolding timed_out_def r2 by simp
  have z: "trace firmware_init = []" "disconnect_time (metrics firmware_init) = 0"
    by (simp_all add: firmware_init_def metrics_init_def)
  note a = liveness_monitor [of 0 "[]" firmware_init 0 0 ?input ?clk "[]", unfolded Let_def]
  have i: "\<not> connected (metrics firmware_init)"
    using a by blast
  have a1: "connected (metrics ?s1)"
    using a r1 t0 by blast
  have a2: "last_update (metrics ?s1) = 1000"
    using a r2 by simp
  have a3: "disconnect_time (metrics ?s1) = 0"
    using a t0 z(2) by simp
  have a4: "count_list (trace ?s1) connection_lost = 0"
    using a t0 z(1) by simp
  have t: "\<not> timed_out ?s1 ?c1" "timed_out ?s1 ?c2" "timed_out ?s1 ?c3" "timed_out ?s1 ?c4"
    "\<not> timed_out ?s1 ?c5"
    unfolding timed_out_def a2 by simp_all
  note b = liveness_monitor [of 0 "[]" ?s1 6001 6002 "[]" ?c1 "[?c1, ?c2, ?c3, ?c4]",
      unfolded Let_def]
  have b1: "\<not> connected (metrics ?s2)"
    using b t by simp
  have b2: "disconnect_time (metrics ?s2) = 6002"
    using b a1 t by simp
  have b3: "count_list (trace ?s2) connection_lost = 1"
    using b a1 a4 t by simp
  have b4: "checkConnectionStatus 6001 6002 ?s1 =
         println ''Connection lost - no data received''
           (?s1\<lparr>metrics := (metrics ?s1)\<lparr>connected := False, disconnect_time := 6002\<rparr>\<rparr>)"
    using b a1 a2 by simp
  note c = liveness_monitor [of 0 "[]" ?s1 6000 6000 "[]" ?c1 "[?c1, ?c5]", unfolded Let_def]
  have c1: "connected (metrics ?s3)"
    using c a1 t by simp
  have c2: "disconnect_time (metrics ?s3) = 0"
    using c a1 a3 t by simp
  have c3: "count_list (trace ?s3) connection_lost = 0"
    using c a1 a4 t by simp
  have c4: "checkConnectionStatus 6000 6000 ?s1 = ?s1"
    using c a2 by simp
  note d = liveness_monitor [of 0 "[]" ?s2 6001 6002 "[]" ?c1 "[]", unfolded Let_def]
  have d1: "checkConnectionStatus 6001 6002 ?s2 = ?s2"
    using d b1 by blast
  show ?thesis
    unfolding Let_def
    using i a1 a2 a3 a4 b1 b2 b3 b4 c1 c2 c3 c4 d1 by blast
qed

end
